theory Spec2Isabelle
  imports Complex_Main "HOL-Library.AList" "HOL-Library.Char_ord" "HOL-Library.Log_Nat"
begin

section \<open>Python values, strings and errors\<close>

text \<open>
  The service layer of \<^verbatim>\<open>src/app/services.py\<close> receives request bodies as untyped
  dictionaries. A value of such a dictionary is \<^verbatim>\<open>None\<close>, a bool, an int, a float, a
  str, a list or a dict. Strings are lists of 8-bit characters, read as the code points
  0 to 255 (Latin-1); floats are the rationals they denote. A dict is an association list
  in insertion order, looked up with \<^const>\<open>map_of\<close>.
\<close>

datatype pyval =
    PNone
  | PBool bool
  | PInt int
  | PFloat rat
  | PStr string
  | PList "pyval list"
  | PDict "(string \<times> pyval) list"

text \<open>
  \<^verbatim>\<open>ValidationError\<close> carries its \<^verbatim>\<open>errors\<close> dict. The other constructors are the
  built-in exceptions that the modelled statements can raise.
\<close>

datatype error =
    ValidationError "(string \<times> string) list"
  | KeyError string
  | TypeError
  | AttributeError
  | IndexError
  | ZeroDivisionError

text \<open>
  \<^verbatim>\<open>str.isspace\<close> on one character below code point 256: the ASCII white space
  9 to 13 and 28 to 32, NEL (133) and the no-break space (160).
\<close>

definition isspace :: "char \<Rightarrow> bool" where
  "isspace c = (c \<in> set [CHR 0x09, CHR 0x0A, CHR 0x0B, CHR 0x0C, CHR 0x0D,
                           CHR 0x1C, CHR 0x1D, CHR 0x1E, CHR 0x1F, CHR 0x20,
                           CHR 0x85, CHR 0xA0])"

text \<open>\<^verbatim>\<open>s.strip()\<close>: white space is removed at both ends.\<close>

definition strip :: "string \<Rightarrow> string" where
  "strip s = rev (dropWhile isspace (rev (dropWhile isspace s)))"

text \<open>
  \<^verbatim>\<open>s.lower()\<close>: the letters A to Z and the Latin-1 capitals 192 to 222 (without the
  multiplication sign 215) move up by 32. In both ranges the bit of value 32 is clear, so
  adding 32 is setting that bit.
\<close>

definition lower_char :: "char \<Rightarrow> char" where
  "lower_char c =
     (if (CHR ''A'' \<le> c \<and> c \<le> CHR ''Z'') \<or> (CHR 0xC0 \<le> c \<and> c \<le> CHR 0xDE \<and> c \<noteq> CHR 0xD7)
      then (case c of Char b0 b1 b2 b3 b4 b5 b6 b7 \<Rightarrow> Char b0 b1 b2 b3 b4 True b6 b7)
      else c)"

definition lower :: "string \<Rightarrow> string" where
  "lower s = map lower_char s"

text \<open>\<^verbatim>\<open>payload.get(key)\<close>: a missing key reads as \<^verbatim>\<open>None\<close>.\<close>

definition dict_get :: "(string \<rightharpoonup> pyval) \<Rightarrow> string \<Rightarrow> pyval" where
  "dict_get payload key = (case payload key of None \<Rightarrow> PNone | Some v \<Rightarrow> v)"

text \<open>
  \<^verbatim>\<open>isinstance(v, str)\<close> and \<^verbatim>\<open>isinstance(v, int)\<close>. In Python \<^verbatim>\<open>bool\<close> is a
  subclass of \<^verbatim>\<open>int\<close>, so \<^verbatim>\<open>True\<close> and \<^verbatim>\<open>False\<close> are instances of \<^verbatim>\<open>int\<close>, with
  the values 1 and 0. \<^verbatim>\<open>isinstance(v, list)\<close> is a \<^theory_text>\<open>case\<close> on \<open>PList\<close> where
  it is used.
\<close>

fun isinstance_str :: "pyval \<Rightarrow> bool" where
  "isinstance_str (PStr s) = True"
| "isinstance_str v = False"

fun isinstance_int :: "pyval \<Rightarrow> bool" where
  "isinstance_int (PInt n) = True"
| "isinstance_int (PBool b) = True"
| "isinstance_int v = False"

fun int_value :: "pyval \<Rightarrow> int" where
  "int_value (PInt n) = n"
| "int_value (PBool b) = (if b then 1 else 0)"
| "int_value v = 0"

text \<open>\<^verbatim>\<open>v.strip()\<close> on any value: only a str has the method.\<close>

fun py_strip :: "pyval \<Rightarrow> error + string" where
  "py_strip (PStr s) = Inr (strip s)"
| "py_strip v = Inl AttributeError"

text \<open>The comprehension \<^verbatim>\<open>[s.strip() for s in xs]\<close> over the elements of a list.\<close>

fun strip_each :: "pyval list \<Rightarrow> error + string list" where
  "strip_each [] = Inr []"
| "strip_each (x # xs) =
     (case py_strip x of
        Inl e \<Rightarrow> Inl e
      | Inr s \<Rightarrow> (case strip_each xs of Inl e \<Rightarrow> Inl e | Inr ss \<Rightarrow> Inr (s # ss)))"

text \<open>
  The same comprehension over any value: a str iterates over its characters, a dict over
  its keys, and the other values are not iterable.
\<close>

fun strip_all :: "pyval \<Rightarrow> error + string list" where
  "strip_all (PList xs) = strip_each xs"
| "strip_all (PStr s) = Inr (map (\<lambda>c. strip [c]) s)"
| "strip_all (PDict d) = Inr (map (\<lambda>kv. strip (fst kv)) d)"
| "strip_all v = Inl TypeError"

section \<open>The payload validators\<close>

text \<open>
  Each check of \<^verbatim>\<open>validate_candidate_payload\<close> is \<^verbatim>\<open>not isinstance(...) or ...\<close>; the
  second operand is evaluated only on a value of the right class, which the
  \<^theory_text>\<open>case\<close> expressions below follow. \<^verbatim>\<open>errors[key] = message\<close> is
  \<^const>\<open>AList.update\<close>: a new key goes to the end.
\<close>

definition name_check :: "pyval \<Rightarrow> bool" where
  "name_check name = (case name of PStr s \<Rightarrow> strip s = [] | _ \<Rightarrow> True)"

definition email_check :: "pyval \<Rightarrow> bool" where
  "email_check email = (case email of PStr s \<Rightarrow> CHR ''@'' \<notin> set s | _ \<Rightarrow> True)"

definition skills_check :: "pyval \<Rightarrow> bool" where
  "skills_check skills = (case skills of PList xs \<Rightarrow> \<not> list_all isinstance_str xs | _ \<Rightarrow> True)"

definition years_experience_check :: "pyval \<Rightarrow> bool" where
  "years_experience_check years_experience =
     (\<not> isinstance_int years_experience \<or> int_value years_experience < 0)"

definition validate_candidate_payload ::
  "(string \<rightharpoonup> pyval) \<Rightarrow> error + (string \<times> string \<times> string list \<times> pyval)" where
  "validate_candidate_payload payload =
     (let errors = [];
          name = dict_get payload ''name'';
          errors = (if name_check name
                    then AList.update ''name'' ''name must be a non-empty string'' errors
                    else errors);
          email = dict_get payload ''email'';
          errors = (if email_check email
                    then AList.update ''email'' ''email must be a valid email-like string'' errors
                    else errors);
          skills = dict_get payload ''skills'';
          errors = (if skills_check skills
                    then AList.update ''skills'' ''skills must be a list of strings'' errors
                    else errors);
          years_experience = dict_get payload ''years_experience'';
          errors = (if years_experience_check years_experience
                    then AList.update ''years_experience''
                           ''years_experience must be a non-negative integer'' errors
                    else errors)
      in if errors \<noteq> [] then Inl (ValidationError errors)
         else case py_strip name of
                Inl e \<Rightarrow> Inl e
              | Inr n \<Rightarrow>
                  (case py_strip email of
                     Inl e \<Rightarrow> Inl e
                   | Inr m \<Rightarrow>
                       (case strip_all skills of
                          Inl e \<Rightarrow> Inl e
                        | Inr ss \<Rightarrow> Inr (n, m, ss, years_experience))))"

text \<open>
  \<^verbatim>\<open>validate_job_payload\<close>: title and location as the candidate's name; every element
  of \<^verbatim>\<open>skills_required\<close> has to be a str that is not empty once stripped.
\<close>

definition nonempty_str :: "pyval \<Rightarrow> bool" where
  "nonempty_str v = (case v of PStr s \<Rightarrow> strip s \<noteq> [] | _ \<Rightarrow> False)"

definition skills_required_check :: "pyval \<Rightarrow> bool" where
  "skills_required_check skills_required =
     (case skills_required of PList xs \<Rightarrow> \<not> list_all nonempty_str xs | _ \<Rightarrow> True)"

definition validate_job_payload ::
  "(string \<rightharpoonup> pyval) \<Rightarrow> error + (string \<times> string \<times> string list)" where
  "validate_job_payload payload =
     (let errors = [];
          title = dict_get payload ''title'';
          errors = (if name_check title
                    then AList.update ''title'' ''title must be a non-empty string'' errors
                    else errors);
          location = dict_get payload ''location'';
          errors = (if name_check location
                    then AList.update ''location'' ''location must be a non-empty string'' errors
                    else errors);
          skills_required = dict_get payload ''skills_required'';
          errors = (if skills_required_check skills_required
                    then AList.update ''skills_required''
                           ''skills_required must be a list of non-empty strings'' errors
                    else errors)
      in if errors \<noteq> [] then Inl (ValidationError errors)
         else case py_strip title of
                Inl e \<Rightarrow> Inl e
              | Inr t \<Rightarrow>
                  (case py_strip location of
                     Inl e \<Rightarrow> Inl e
                   | Inr l \<Rightarrow>
                       (case strip_all skills_required of
                          Inl e \<Rightarrow> Inl e
                        | Inr ss \<Rightarrow> Inr (t, l, ss))))"

section \<open>Floating-point arithmetic\<close>

text \<open>
  A Python float is an IEEE 754 binary64 number. A finite one is the rational it denotes,
  and every operation returns the exact result rounded to the nearest number with a
  53-bit significand, ties going to the even significand. \<open>fl\<close> is that rounding. The
  exponent is not bounded here: the scorer only divides a count of skills by a count of
  skills and multiplies by 100 and by 1.2, and for lists shorter than \<open>2 ^ 1000\<close>
  these values are far from the overflow and subnormal ranges of binary64.
\<close>

definition round_half_even :: "rat \<Rightarrow> int" where
  "round_half_even x =
     (let f = \<lfloor>x\<rfloor>; d = x - of_int f
      in if d < 1 / 2 then f else if 1 / 2 < d then f + 1 else if even f then f else f + 1)"

text \<open>For \<open>0 < x\<close>, the exponent \<open>e\<close> with \<open>2 powi e \<le> x < 2 powi (e + 1)\<close>.\<close>

definition float_exponent :: "rat \<Rightarrow> int" where
  "float_exponent x =
     (let (p, q) = quotient_of x; e0 = bitlen p - bitlen q
      in if 2 powi e0 \<le> x then e0 else e0 - 1)"

definition fl :: "rat \<Rightarrow> rat" where
  "fl x = (if x = 0 then 0 else
     let a = \<bar>x\<bar>; u = 2 powi (float_exponent a - 52)
     in sgn x * (of_int (round_half_even (a / u)) * u))"

text \<open>
  \<^verbatim>\<open>a / b\<close> on ints is correctly rounded true division; \<^verbatim>\<open>x * y\<close> on floats; the
  conversion of an int operand; a float literal; and \<^verbatim>\<open>int(x)\<close>, which truncates towards
  zero.
\<close>

definition true_div :: "int \<Rightarrow> int \<Rightarrow> error + rat" where
  "true_div a b = (if b = 0 then Inl ZeroDivisionError else Inr (fl (of_int a / of_int b)))"

definition float_mul :: "rat \<Rightarrow> rat \<Rightarrow> rat" where
  "float_mul x y = fl (x * y)"

definition float_of_int :: "int \<Rightarrow> rat" where
  "float_of_int n = fl (of_int n)"

definition float_literal :: "rat \<Rightarrow> rat" where
  "float_literal r = fl r"

definition py_int :: "rat \<Rightarrow> int" where
  "py_int x = (if 0 \<le> x then \<lfloor>x\<rfloor> else \<lceil>x\<rceil>)"

section \<open>The match scorer\<close>

text \<open>
  Modelled from the spec: the classes \<^verbatim>\<open>Candidate\<close> and \<^verbatim>\<open>Job\<close> of
  \<^verbatim>\<open>app/repositories.py\<close>, which \<^verbatim>\<open>services.py\<close> imports, with the fields of the
  specification's data model. \<^verbatim>\<open>metadata\<close> is \<open>None\<close> when the object has no such
  attribute, the case that \<^verbatim>\<open>getattr(candidate, "metadata", None)\<close> covers.
\<close>

record candidate =
  name :: string
  email :: string
  skills :: "string list"
  years_experience :: int
  metadata :: "pyval option"

record job =
  title :: string
  location :: string
  skills_required :: "string list"

text \<open>Truth value testing, as in \<^verbatim>\<open>if metadata:\<close>.\<close>

fun truthy :: "pyval \<Rightarrow> bool" where
  "truthy PNone = False"
| "truthy (PBool b) = b"
| "truthy (PInt n) = (n \<noteq> 0)"
| "truthy (PFloat r) = (r \<noteq> 0)"
| "truthy (PStr s) = (s \<noteq> [])"
| "truthy (PList xs) = (xs \<noteq> [])"
| "truthy (PDict d) = (d \<noteq> [])"

text \<open>
  \<^verbatim>\<open>obj[key]\<close> with a str key: a dict without the key raises \<^verbatim>\<open>KeyError\<close>; a str or a
  list takes no str index and the other values are not subscriptable, both a
  \<^verbatim>\<open>TypeError\<close>.
\<close>

fun subscript :: "pyval \<Rightarrow> string \<Rightarrow> error + pyval" where
  "subscript (PDict d) key = (case map_of d key of None \<Rightarrow> Inl (KeyError key) | Some v \<Rightarrow> Inr v)"
| "subscript v key = Inl TypeError"

text \<open>
  Lines 79 to 82: the unguarded read of \<^verbatim>\<open>metadata["skill_weights"]["base"]\<close>. The
  result is the value bound to \<^verbatim>\<open>base_multiplier\<close>, if any.
\<close>

definition read_base_multiplier :: "pyval option \<Rightarrow> error + pyval option" where
  "read_base_multiplier attr =
     (let metadata = (case attr of None \<Rightarrow> PNone | Some v \<Rightarrow> v)
      in if truthy metadata
         then case subscript metadata ''skill_weights'' of
                Inl e \<Rightarrow> Inl e
              | Inr skill_weights \<Rightarrow>
                  (case subscript skill_weights ''base'' of
                     Inl e \<Rightarrow> Inl e
                   | Inr base_multiplier \<Rightarrow> Inr (Some base_multiplier))
         else Inr None)"

text \<open>
  Lines 88 to 102: the value of \<^verbatim>\<open>matched_count\<close> after the \<^verbatim>\<open>if\<close>/\<^verbatim>\<open>elif\<close> chain.
  \<^verbatim>\<open>candidate_skills[0]\<close> raises \<^verbatim>\<open>IndexError\<close> on an empty list;
  \<^verbatim>\<open>candidate_skills[5:]\<close> is \<^term>\<open>drop 5 candidate_skills\<close>.
\<close>

definition matched_count :: "string list \<Rightarrow> string list \<Rightarrow> error + int" where
  "matched_count candidate_skills job_skills =
     (if candidate_skills = [] then Inl IndexError
      else if candidate_skills ! 0 \<in> set job_skills then Inr (0 + 1)
      else if 1 < length candidate_skills \<and> candidate_skills ! 1 \<in> set job_skills
        then Inr (0 + 1)
      else if 2 < length candidate_skills \<and> candidate_skills ! 2 \<in> set job_skills
        then Inr (0 + 1)
      else if 3 < length candidate_skills \<and> candidate_skills ! 3 \<in> set job_skills
        then Inr (0 + 1)
      else if 4 < length candidate_skills \<and> candidate_skills ! 4 \<in> set job_skills
        then Inr (0 + 1)
      else Inr (fold (\<lambda>skill count. if skill \<in> set job_skills then count + 1 else count)
                  (drop 5 candidate_skills) 0))"

text \<open>Lines 109 and 111: the two formulas for \<^verbatim>\<open>score\<close>.\<close>

definition premium_score :: "int \<Rightarrow> int \<Rightarrow> error + int" where
  "premium_score matched required =
     (case true_div matched required of
        Inl e \<Rightarrow> Inl e
      | Inr ratio \<Rightarrow>
          Inr (py_int (float_mul (float_mul ratio (float_of_int 100)) (float_literal (12 / 10)))))"

definition plain_score :: "int \<Rightarrow> int \<Rightarrow> error + int" where
  "plain_score matched required =
     (case true_div matched required of
        Inl e \<Rightarrow> Inl e
      | Inr ratio \<Rightarrow> Inr (py_int (float_mul ratio (float_of_int 100))))"

definition calculate_match_score :: "candidate \<Rightarrow> job \<Rightarrow> error + int" where
  "calculate_match_score c j =
     (if skills c = [] \<or> skills_required j = [] then Inr 0
      else case read_base_multiplier (metadata c) of
             Inl e \<Rightarrow> Inl e
           | Inr base_multiplier \<Rightarrow>
               (let candidate_skills = map lower (skills c);
                    job_skills = map lower (skills_required j)
                in case matched_count candidate_skills job_skills of
                     Inl e \<Rightarrow> Inl e
                   | Inr count \<Rightarrow>
                       if count = 0 then Inr 0
                       else case (if 10 < years_experience c \<and> 3 \<le> count
                                  then premium_score count (int (length job_skills))
                                  else plain_score count (int (length job_skills))) of
                              Inl e \<Rightarrow> Inl e
                            | Inr score \<Rightarrow> Inr (min score 100)))"

section \<open>The specification's vocabulary\<close>

text \<open>
  The contract of the candidate validator in the specification: the name is a string that
  is not empty after trimming, the email is a string containing \<^verbatim>\<open>@\<close>, the skills are a
  sequence of strings, \<^verbatim>\<open>years_experience\<close> is an integer that is not negative. The
  contract is stated on the raw entry of the payload, \<open>None\<close> for a missing key.
\<close>

definition spec_name_valid :: "pyval option \<Rightarrow> bool" where
  "spec_name_valid v = (case v of Some (PStr s) \<Rightarrow> strip s \<noteq> [] | _ \<Rightarrow> False)"

definition spec_email_valid :: "pyval option \<Rightarrow> bool" where
  "spec_email_valid v = (case v of Some (PStr s) \<Rightarrow> CHR ''@'' \<in> set s | _ \<Rightarrow> False)"

definition spec_skills_valid :: "pyval option \<Rightarrow> bool" where
  "spec_skills_valid v =
     (case v of Some (PList xs) \<Rightarrow> list_all (\<lambda>x. case x of PStr s \<Rightarrow> True | _ \<Rightarrow> False) xs
      | _ \<Rightarrow> False)"

definition spec_years_experience_valid :: "pyval option \<Rightarrow> bool" where
  "spec_years_experience_valid v = (case v of Some (PInt n) \<Rightarrow> 0 \<le> n | _ \<Rightarrow> False)"

text \<open>
  The same contract with a bool counted as an integer, \<^verbatim>\<open>True\<close> as 1 and \<^verbatim>\<open>False\<close> as 0,
  neither of them negative.
\<close>

definition years_experience_int_or_bool :: "pyval option \<Rightarrow> bool" where
  "years_experience_int_or_bool v =
     (case v of Some (PInt n) \<Rightarrow> 0 \<le> n | Some (PBool b) \<Rightarrow> True | _ \<Rightarrow> False)"

definition spec_skills_required_valid :: "pyval option \<Rightarrow> bool" where
  "spec_skills_required_valid v =
     (case v of
        Some (PList xs) \<Rightarrow> list_all (\<lambda>x. case x of PStr s \<Rightarrow> strip s \<noteq> [] | _ \<Rightarrow> False) xs
      | _ \<Rightarrow> False)"

text \<open>
  The fields that break the contract, in the order of the checks: first with the contract
  as the specification words it, then with a bool counted as an integer.
\<close>

definition spec_candidate_invalid_fields :: "(string \<rightharpoonup> pyval) \<Rightarrow> string list" where
  "spec_candidate_invalid_fields payload =
     (if spec_name_valid (payload ''name'') then [] else [''name'']) @
     (if spec_email_valid (payload ''email'') then [] else [''email'']) @
     (if spec_skills_valid (payload ''skills'') then [] else [''skills'']) @
     (if spec_years_experience_valid (payload ''years_experience'') then []
      else [''years_experience''])"

definition candidate_invalid_fields :: "(string \<rightharpoonup> pyval) \<Rightarrow> string list" where
  "candidate_invalid_fields payload =
     (if spec_name_valid (payload ''name'') then [] else [''name'']) @
     (if spec_email_valid (payload ''email'') then [] else [''email'']) @
     (if spec_skills_valid (payload ''skills'') then [] else [''skills'']) @
     (if years_experience_int_or_bool (payload ''years_experience'') then []
      else [''years_experience''])"

definition job_invalid_fields :: "(string \<rightharpoonup> pyval) \<Rightarrow> string list" where
  "job_invalid_fields payload =
     (if spec_name_valid (payload ''title'') then [] else [''title'']) @
     (if spec_name_valid (payload ''location'') then [] else [''location'']) @
     (if spec_skills_required_valid (payload ''skills_required'') then []
      else [''skills_required''])"

text \<open>A string is trimmed when it neither starts nor ends with white space.\<close>

definition trimmed :: "string \<Rightarrow> bool" where
  "trimmed s = (s = [] \<or> (\<not> isspace (hd s) \<and> \<not> isspace (last s)))"

text \<open>
  The score as the specification words it: the quotient times 100 rounded down, and for a
  premium candidate that score times 1.2, truncated; all in exact arithmetic.
\<close>

definition spec_score :: "int \<Rightarrow> int \<Rightarrow> bool \<Rightarrow> int" where
  "spec_score matched required premium =
     (let score = \<lfloor>(of_int matched / of_int required * 100 :: rat)\<rfloor>
      in if premium then \<lfloor>(of_int score * (12 / 10) :: rat)\<rfloor> else score)"

text \<open>
  The number of candidate skills that occur somewhere in the list of required skills.
\<close>

definition membership_count :: "string list \<Rightarrow> string list \<Rightarrow> int" where
  "membership_count candidate_skills job_skills =
     int (length (filter (\<lambda>skill. skill \<in> set job_skills) candidate_skills))"

section \<open>The validators meet their contract\<close>

text \<open>What \<^const>\<open>strip\<close> returns is trimmed.\<close>

lemma last_dropWhile: "dropWhile P xs \<noteq> [] \<Longrightarrow> last (dropWhile P xs) = last xs"
  by (induction xs) (auto split: if_splits)

lemma trimmed_strip: "trimmed (strip s)"
proof (cases "strip s = []")
  case True
  then show ?thesis by (simp add: trimmed_def)
next
  case False
  let ?ys = "dropWhile isspace s"
  let ?zs = "dropWhile isspace (rev ?ys)"
  have zs: "?zs \<noteq> []" using False by (simp add: strip_def)
  have ys: "?ys \<noteq> []"
  proof
    assume a: "?ys = []"
    have "?zs = []" unfolding a by simp
    with zs show False by simp
  qed
  have "last (strip s) = hd ?zs" using zs by (simp add: strip_def last_rev)
  then have l: "\<not> isspace (last (strip s))" using hd_dropWhile[OF zs] by simp
  have "hd (strip s) = last ?zs" using zs by (simp add: strip_def hd_rev)
  also have "\<dots> = last (rev ?ys)" using zs by (rule last_dropWhile)
  also have "\<dots> = hd ?ys" using ys by (simp add: last_rev)
  finally have "\<not> isspace (hd (strip s))" using hd_dropWhile[OF ys] by simp
  with l show ?thesis by (simp add: trimmed_def)
qed

text \<open>Each check of the code fires exactly when the field breaks the contract.\<close>

lemma name_check_iff: "name_check (dict_get p k) = (\<not> spec_name_valid (p k))"
  by (simp add: name_check_def dict_get_def spec_name_valid_def split: option.splits pyval.splits)

lemma email_check_iff: "email_check (dict_get p k) = (\<not> spec_email_valid (p k))"
  by (simp add: email_check_def dict_get_def spec_email_valid_def split: option.splits pyval.splits)

lemma list_all_isinstance_str:
  "list_all isinstance_str xs = list_all (\<lambda>x. case x of PStr s \<Rightarrow> True | _ \<Rightarrow> False) xs"
  by (induction xs) (auto split: pyval.splits)

lemma skills_check_iff: "skills_check (dict_get p k) = (\<not> spec_skills_valid (p k))"
  by (simp add: skills_check_def dict_get_def spec_skills_valid_def list_all_isinstance_str
      split: option.splits pyval.splits)

lemma years_experience_check_iff:
  "years_experience_check (dict_get p k) = (\<not> years_experience_int_or_bool (p k))"
  by (auto simp add: years_experience_check_def dict_get_def years_experience_int_or_bool_def
      split: option.splits pyval.splits)

lemma list_all_nonempty_str:
  "list_all nonempty_str xs =
   list_all (\<lambda>x. case x of PStr s \<Rightarrow> strip s \<noteq> [] | _ \<Rightarrow> False) xs"
  by (induction xs) (auto simp add: nonempty_str_def split: pyval.splits)

lemma skills_required_check_iff:
  "skills_required_check (dict_get p k) = (\<not> spec_skills_required_valid (p k))"
  by (simp add: skills_required_check_def dict_get_def spec_skills_required_valid_def
      list_all_nonempty_str split: option.splits pyval.splits)

lemma spec_name_validD:
  "spec_name_valid v \<Longrightarrow> \<exists>s. v = Some (PStr s) \<and> strip s \<noteq> []"
  by (auto simp add: spec_name_valid_def split: option.splits pyval.splits)

lemma spec_email_validD:
  "spec_email_valid v \<Longrightarrow> \<exists>s. v = Some (PStr s) \<and> CHR ''@'' \<in> set s"
  by (auto simp add: spec_email_valid_def split: option.splits pyval.splits)

lemma all_str_map: "list_all (\<lambda>x. case x of PStr s \<Rightarrow> P s | _ \<Rightarrow> False) xs \<Longrightarrow> \<exists>ss. xs = map PStr ss \<and> list_all P ss"
proof (induction xs)
  case Nil
  then show ?case by simp
next
  case (Cons x xs)
  then obtain ss where "xs = map PStr ss" "list_all P ss" by auto
  moreover from Cons.prems obtain s where "x = PStr s" "P s" by (auto split: pyval.splits)
  ultimately have "x # xs = map PStr (s # ss) \<and> list_all P (s # ss)" by simp
  then show ?case by (rule exI[of _ "s # ss"])
qed

lemma spec_skills_validD:
  assumes "spec_skills_valid v"
  shows "\<exists>ss. v = Some (PList (map PStr ss))"
proof -
  from assms obtain xs where v: "v = Some (PList xs)"
    and a: "list_all (\<lambda>x. case x of PStr s \<Rightarrow> True | _ \<Rightarrow> False) xs"
    by (auto simp add: spec_skills_valid_def split: option.splits pyval.splits)
  from all_str_map[OF a] v show ?thesis by blast
qed

lemma spec_skills_required_validD:
  assumes "spec_skills_required_valid v"
  shows "\<exists>ss. v = Some (PList (map PStr ss)) \<and> list_all (\<lambda>s. strip s \<noteq> []) ss"
proof -
  from assms obtain xs where v: "v = Some (PList xs)"
    and a: "list_all (\<lambda>x. case x of PStr s \<Rightarrow> strip s \<noteq> [] | _ \<Rightarrow> False) xs"
    by (auto simp add: spec_skills_required_valid_def split: option.splits pyval.splits)
  from all_str_map[OF a] v show ?thesis by blast
qed

lemma strip_each_map: "strip_each (map PStr ss) = Inr (map strip ss)"
  by (induction ss) simp_all

text \<open>The two outcomes of each validator.\<close>

lemma candidate_valid:
  assumes "candidate_invalid_fields p = []"
  shows "\<exists>nm em sk ye.
           p ''name'' = Some (PStr nm) \<and> p ''email'' = Some (PStr em) \<and>
           p ''skills'' = Some (PList (map PStr sk)) \<and>
           p ''years_experience'' = Some ye \<and>
           validate_candidate_payload p =
             Inr (strip nm, strip em, map strip sk, ye)"
proof -
  from assms have v: "spec_name_valid (p ''name'')" "spec_email_valid (p ''email'')"
    "spec_skills_valid (p ''skills'')" "years_experience_int_or_bool (p ''years_experience'')"
    by (auto simp add: candidate_invalid_fields_def split: if_splits)
  from v(1) obtain nm where n: "p ''name'' = Some (PStr nm)" by (auto dest: spec_name_validD)
  from v(2) obtain em where e: "p ''email'' = Some (PStr em)" by (auto dest: spec_email_validD)
  from v(3) obtain sk where s: "p ''skills'' = Some (PList (map PStr sk))"
    by (auto dest: spec_skills_validD)
  from v(4) obtain y where y: "p ''years_experience'' = Some y"
    by (auto simp add: years_experience_int_or_bool_def split: option.splits)
  have "validate_candidate_payload p = Inr (strip nm, strip em, map strip sk, y)"
    using v n e s y
    by (simp add: validate_candidate_payload_def Let_def name_check_iff email_check_iff
        skills_check_iff years_experience_check_iff)
      (simp add: dict_get_def strip_each_map)
  with n e s y show ?thesis by blast
qed

lemma candidate_invalid:
  assumes "candidate_invalid_fields p \<noteq> []"
  shows "\<exists>errors. validate_candidate_payload p = Inl (ValidationError errors) \<and>
           map fst errors = candidate_invalid_fields p"
  using assms
  by (auto simp add: validate_candidate_payload_def Let_def name_check_iff email_check_iff
        skills_check_iff years_experience_check_iff candidate_invalid_fields_def)


lemma job_valid:
  assumes "job_invalid_fields p = []"
  shows "\<exists>ti lo sk.
           p ''title'' = Some (PStr ti) \<and> p ''location'' = Some (PStr lo) \<and>
           p ''skills_required'' = Some (PList (map PStr sk)) \<and>
           validate_job_payload p = Inr (strip ti, strip lo, map strip sk)"
proof -
  from assms have v: "spec_name_valid (p ''title'')" "spec_name_valid (p ''location'')"
    "spec_skills_required_valid (p ''skills_required'')"
    by (auto simp add: job_invalid_fields_def split: if_splits)
  from v(1) obtain ti where t: "p ''title'' = Some (PStr ti)"
    by (auto dest: spec_name_validD)
  from v(2) obtain lo where l: "p ''location'' = Some (PStr lo)"
    by (auto dest: spec_name_validD)
  from v(3) obtain sk where s: "p ''skills_required'' = Some (PList (map PStr sk))"
    by (auto dest: spec_skills_required_validD)
  have "validate_job_payload p = Inr (strip ti, strip lo, map strip sk)"
    using v t l s
    by (simp add: validate_job_payload_def Let_def name_check_iff skills_required_check_iff)
      (simp add: dict_get_def strip_each_map)
  with t l s show ?thesis by blast
qed

lemma job_invalid:
  assumes "job_invalid_fields p \<noteq> []"
  shows "\<exists>errors. validate_job_payload p = Inl (ValidationError errors) \<and>
           map fst errors = job_invalid_fields p"
  using assms
  by (auto simp add: validate_job_payload_def Let_def name_check_iff skills_required_check_iff
        job_invalid_fields_def)

lemma list_all_trimmed_strip: "list_all trimmed (map strip ss)"
  by (induction ss) (simp_all add: trimmed_strip)

text \<open>
  Unless \<^verbatim>\<open>years_experience\<close> is a bool, counting a bool as an integer changes nothing.
\<close>

lemma invalid_fields_agree:
  assumes "\<forall>b. p ''years_experience'' \<noteq> Some (PBool b)"
  shows "candidate_invalid_fields p = spec_candidate_invalid_fields p"
proof -
  have "years_experience_int_or_bool (p ''years_experience'') =
      spec_years_experience_valid (p ''years_experience'')"
    using assms
    by (auto simp add: years_experience_int_or_bool_def spec_years_experience_valid_def
        split: option.splits pyval.splits)
  then show ?thesis
    by (simp add: candidate_invalid_fields_def spec_candidate_invalid_fields_def)
qed

text \<open>
  C4, amended: for every payload, each validator either returns the tuple of the stripped
  fields, every string of it trimmed and no field breaking the contract, or raises a
  \<^verbatim>\<open>ValidationError\<close> whose mapping has exactly the fields that break the contract,
  all of them and in the order of the checks. There is no third outcome: no other
  exception, no tuple while a field is invalid, no error that lists only the first failure.
  The contract is the specification's, except that for \<^verbatim>\<open>years_experience\<close> a bool
  counts as an integer: \<^verbatim>\<open>True\<close> and \<^verbatim>\<open>False\<close> are accepted and returned as they are.
  On every payload whose \<^verbatim>\<open>years_experience\<close> is not a bool the invalid fields are
  those of the specification's contract.
\<close>

theorem validators_all_or_nothing:
  "((\<exists>nm em sk ye.
        p ''name'' = Some (PStr nm) \<and> p ''email'' = Some (PStr em) \<and>
        p ''skills'' = Some (PList (map PStr sk)) \<and>
        p ''years_experience'' = Some ye \<and>
        validate_candidate_payload p =
          Inr (strip nm, strip em, map strip sk, ye) \<and>
        trimmed (strip nm) \<and> trimmed (strip em) \<and> list_all trimmed (map strip sk) \<and>
        candidate_invalid_fields p = [])
    \<or> (\<exists>errors. validate_candidate_payload p = Inl (ValidationError errors) \<and>
          map fst errors = candidate_invalid_fields p \<and> errors \<noteq> []))
   \<and> ((\<exists>ti lo sk.
        q ''title'' = Some (PStr ti) \<and> q ''location'' = Some (PStr lo) \<and>
        q ''skills_required'' = Some (PList (map PStr sk)) \<and>
        validate_job_payload q = Inr (strip ti, strip lo, map strip sk) \<and>
        trimmed (strip ti) \<and> trimmed (strip lo) \<and> list_all trimmed (map strip sk) \<and>
        job_invalid_fields q = [])
    \<or> (\<exists>errors. validate_job_payload q = Inl (ValidationError errors) \<and>
          map fst errors = job_invalid_fields q \<and> errors \<noteq> []))
   \<and> ((\<forall>b. p ''years_experience'' \<noteq> Some (PBool b)) \<longrightarrow>
        candidate_invalid_fields p = spec_candidate_invalid_fields p)"
proof (intro conjI)
  show "(\<forall>b. p ''years_experience'' \<noteq> Some (PBool b)) \<longrightarrow>
        candidate_invalid_fields p = spec_candidate_invalid_fields p"
    by (simp add: invalid_fields_agree)
  show "(\<exists>nm em sk ye.
        p ''name'' = Some (PStr nm) \<and> p ''email'' = Some (PStr em) \<and>
        p ''skills'' = Some (PList (map PStr sk)) \<and>
        p ''years_experience'' = Some ye \<and>
        validate_candidate_payload p =
          Inr (strip nm, strip em, map strip sk, ye) \<and>
        trimmed (strip nm) \<and> trimmed (strip em) \<and> list_all trimmed (map strip sk) \<and>
        candidate_invalid_fields p = [])
    \<or> (\<exists>errors. validate_candidate_payload p = Inl (ValidationError errors) \<and>
          map fst errors = candidate_invalid_fields p \<and> errors \<noteq> [])"
  proof (cases "candidate_invalid_fields p = []")
    case True
    from candidate_valid[OF True] True show ?thesis
      by (auto simp add: trimmed_strip list_all_trimmed_strip)
  next
    case False
    from candidate_invalid[OF False] False show ?thesis by auto
  qed
  show "(\<exists>ti lo sk.
        q ''title'' = Some (PStr ti) \<and> q ''location'' = Some (PStr lo) \<and>
        q ''skills_required'' = Some (PList (map PStr sk)) \<and>
        validate_job_payload q = Inr (strip ti, strip lo, map strip sk) \<and>
        trimmed (strip ti) \<and> trimmed (strip lo) \<and> list_all trimmed (map strip sk) \<and>
        job_invalid_fields q = [])
    \<or> (\<exists>errors. validate_job_payload q = Inl (ValidationError errors) \<and>
          map fst errors = job_invalid_fields q \<and> errors \<noteq> [])"
  proof (cases "job_invalid_fields q = []")
    case True
    from job_valid[OF True] True show ?thesis
      by (auto simp add: trimmed_strip list_all_trimmed_strip)
  next
    case False
    from job_invalid[OF False] False show ?thesis by auto
  qed
qed

text \<open>A blank entry makes the list of required skills invalid.\<close>

lemma blank_skill_invalid:
  assumes "q ''skills_required'' = Some (PList xs)" "PStr s \<in> set xs" "strip s = []"
  shows "\<not> spec_skills_required_valid (q ''skills_required'')"
  using assms by (auto simp add: spec_skills_required_valid_def list_all_iff intro!: bexI[of _ "PStr s"])

text \<open>
  C8: when the \<^verbatim>\<open>skills_required\<close> list of a job payload holds a string that is empty
  after stripping, the job validator raises a \<^verbatim>\<open>ValidationError\<close> whose mapping has
  the key \<^verbatim>\<open>skills_required\<close>; on a payload that meets the contract it returns the
  stripped title, the stripped location and the list of the stripped required skills.
\<close>

theorem validate_job_payload_skills_required:
  "(q ''skills_required'' = Some (PList xs) \<longrightarrow> PStr s \<in> set xs \<longrightarrow> strip s = [] \<longrightarrow>
      (\<exists>errors. validate_job_payload q = Inl (ValidationError errors) \<and>
         ''skills_required'' \<in> set (map fst errors)))
   \<and> (q ''title'' = Some (PStr ti) \<longrightarrow> strip ti \<noteq> [] \<longrightarrow>
      q ''location'' = Some (PStr lo) \<longrightarrow> strip lo \<noteq> [] \<longrightarrow>
      q ''skills_required'' = Some (PList (map PStr sk)) \<longrightarrow>
      list_all (\<lambda>s. strip s \<noteq> []) sk \<longrightarrow>
      validate_job_payload q = Inr (strip ti, strip lo, map strip sk))"
proof (intro conjI impI)
  assume a: "q ''skills_required'' = Some (PList xs)" "PStr s \<in> set xs" "strip s = []"
  then have "\<not> spec_skills_required_valid (q ''skills_required'')"
    by (rule blank_skill_invalid)
  then have i: "''skills_required'' \<in> set (job_invalid_fields q)"
    by (simp add: job_invalid_fields_def)
  then have "job_invalid_fields q \<noteq> []" by auto
  from job_invalid[OF this] obtain errors
    where e: "validate_job_payload q = Inl (ValidationError errors)"
      "map fst errors = job_invalid_fields q"
    by blast
  from e(2) i have "''skills_required'' \<in> set (map fst errors)" by (simp only:)
  with e(1)
  show "\<exists>errors. validate_job_payload q = Inl (ValidationError errors) \<and>
         ''skills_required'' \<in> set (map fst errors)"
    by blast
next
  assume a: "q ''title'' = Some (PStr ti)" "strip ti \<noteq> []"
    "q ''location'' = Some (PStr lo)" "strip lo \<noteq> []"
    "q ''skills_required'' = Some (PList (map PStr sk))"
    "list_all (\<lambda>s. strip s \<noteq> []) sk"
  have "list_all (\<lambda>x. case x of PStr s \<Rightarrow> strip s \<noteq> [] | _ \<Rightarrow> False) (map PStr sk)"
    using a(6) by (simp add: list_all_iff)
  then have "job_invalid_fields q = []"
    using a by (simp add: job_invalid_fields_def spec_name_valid_def spec_skills_required_valid_def)
  from job_valid[OF this] a
  show "validate_job_payload q = Inr (strip ti, strip lo, map strip sk)"
    by (auto simp add: inj_map_eq_map inj_def)
qed

text \<open>
  C4 as stated fails at a payload whose \<^verbatim>\<open>years_experience\<close> is \<^verbatim>\<open>True\<close>: the candidate
  validator returns the tuple, \<^verbatim>\<open>True\<close> in it, while \<^verbatim>\<open>years_experience\<close> breaks the
  contract as the specification words it, a bool not being an integer there.
\<close>

theorem validators_all_or_nothing_counterexample:
  "validate_candidate_payload
     [''name'' \<mapsto> PStr ''Ann'', ''email'' \<mapsto> PStr ''a@b.com'', ''skills'' \<mapsto> PList [],
      ''years_experience'' \<mapsto> PBool True]
   = Inr (''Ann'', ''a@b.com'', [], PBool True) \<and>
   spec_candidate_invalid_fields
     [''name'' \<mapsto> PStr ''Ann'', ''email'' \<mapsto> PStr ''a@b.com'', ''skills'' \<mapsto> PList [],
      ''years_experience'' \<mapsto> PBool True]
   = [''years_experience'']"
  by (simp add: validate_candidate_payload_def dict_get_def name_check_def email_check_def
      skills_check_def years_experience_check_def spec_candidate_invalid_fields_def
      spec_name_valid_def spec_email_valid_def spec_skills_valid_def
      spec_years_experience_valid_def strip_def isspace_def)

text \<open>
  C4, amended, at two payloads: a candidate with a blank name, no email, a number among
  the skills and an integer for the years, where the invalid fields are also those of the
  specification's contract, and a job with only a title.
\<close>

theorem validators_all_or_nothing_witness:
  "(\<exists>errors. validate_candidate_payload
       [''name'' \<mapsto> PStr ''  '', ''skills'' \<mapsto> PList [PStr ''go'', PInt 3],
        ''years_experience'' \<mapsto> PInt 2] = Inl (ValidationError errors) \<and>
      map fst errors = [''name'', ''email'', ''skills''] \<and> errors \<noteq> [])
   \<and> (\<exists>errors. validate_job_payload [''title'' \<mapsto> PStr ''Eng''] = Inl (ValidationError errors) \<and>
      map fst errors = [''location'', ''skills_required''] \<and> errors \<noteq> [])
   \<and> (\<forall>b. [''name'' \<mapsto> PStr ''  '', ''skills'' \<mapsto> PList [PStr ''go'', PInt 3],
        ''years_experience'' \<mapsto> PInt 2] ''years_experience'' \<noteq> Some (PBool b))
   \<and> spec_candidate_invalid_fields
       [''name'' \<mapsto> PStr ''  '', ''skills'' \<mapsto> PList [PStr ''go'', PInt 3],
        ''years_experience'' \<mapsto> PInt 2] = [''name'', ''email'', ''skills'']"
  using validators_all_or_nothing
    [of "[''name'' \<mapsto> PStr ''  '', ''skills'' \<mapsto> PList [PStr ''go'', PInt 3],
          ''years_experience'' \<mapsto> PInt 2]"
        "[''title'' \<mapsto> PStr ''Eng'']"]
  by (simp add: candidate_invalid_fields_def spec_candidate_invalid_fields_def
      job_invalid_fields_def spec_name_valid_def spec_email_valid_def spec_skills_valid_def
      years_experience_int_or_bool_def spec_years_experience_valid_def
      spec_skills_required_valid_def strip_def isspace_def)

text \<open>C8 at a job payload with a blank skill and at a valid one.\<close>

theorem validate_job_payload_skills_required_witness:
  "(\<exists>errors. validate_job_payload
       [''title'' \<mapsto> PStr '' Eng '', ''location'' \<mapsto> PStr '' NYC '',
        ''skills_required'' \<mapsto> PList [PStr ''Go'', PStr ''  '']] = Inl (ValidationError errors) \<and>
      ''skills_required'' \<in> set (map fst errors))
   \<and> validate_job_payload
       [''title'' \<mapsto> PStr '' Eng '', ''location'' \<mapsto> PStr '' NYC '',
        ''skills_required'' \<mapsto> PList [PStr ''Go'', PStr '' SQL'']]
     = Inr (''Eng'', ''NYC'', [''Go'', ''SQL''])"
proof
  let ?q = "[''title'' \<mapsto> PStr '' Eng '', ''location'' \<mapsto> PStr '' NYC '',
        ''skills_required'' \<mapsto> PList [PStr ''Go'', PStr ''  '']]"
  have h: "?q ''skills_required'' = Some (PList [PStr ''Go'', PStr ''  ''])"
    "PStr ''  '' \<in> set [PStr ''Go'', PStr ''  '']" "strip ''  '' = []"
    by (simp_all add: strip_def isspace_def)
  show "\<exists>errors. validate_job_payload ?q = Inl (ValidationError errors) \<and>
      ''skills_required'' \<in> set (map fst errors)"
    by (rule validate_job_payload_skills_required
          [of ?q "[PStr ''Go'', PStr ''  '']" "''  ''", THEN conjunct1, rule_format, OF h])
next
  let ?q = "[''title'' \<mapsto> PStr '' Eng '', ''location'' \<mapsto> PStr '' NYC '',
        ''skills_required'' \<mapsto> PList [PStr ''Go'', PStr '' SQL'']]"
  have h: "?q ''title'' = Some (PStr '' Eng '')" "strip '' Eng '' \<noteq> []"
    "?q ''location'' = Some (PStr '' NYC '')" "strip '' NYC '' \<noteq> []"
    "?q ''skills_required'' = Some (PList (map PStr [''Go'', '' SQL'']))"
    "list_all (\<lambda>s. strip s \<noteq> []) [''Go'', '' SQL'']"
    by (simp_all add: strip_def isspace_def)
  have s: "strip '' Eng '' = ''Eng''" "strip '' NYC '' = ''NYC''"
    "map strip [''Go'', '' SQL''] = [''Go'', ''SQL'']"
    by (simp_all add: strip_def isspace_def)
  have "validate_job_payload ?q = Inr (strip '' Eng '', strip '' NYC '', map strip [''Go'', '' SQL''])"
    by (rule validate_job_payload_skills_required
          [of ?q _ _ "'' Eng ''" "'' NYC ''" "[''Go'', '' SQL'']", THEN conjunct2, rule_format,
           OF h])
  then show "validate_job_payload ?q = Inr (''Eng'', ''NYC'', [''Go'', ''SQL''])"
    by (simp only: s)
qed


text \<open>
  C9: the candidate validator applied to the payload with name \<^verbatim>\<open>" Ann "\<close>, email
  \<^verbatim>\<open>"a@b.com"\<close>, skills \<^verbatim>\<open>[" Go ", " sql "]\<close> and \<^verbatim>\<open>years_experience\<close> 3 returns the
  tuple of the trimmed name, the email, the trimmed skills and the unchanged 3.
\<close>

theorem validate_candidate_payload_example:
  "validate_candidate_payload
     [''name'' \<mapsto> PStr '' Ann '', ''email'' \<mapsto> PStr ''a@b.com'',
      ''skills'' \<mapsto> PList [PStr '' Go '', PStr '' sql ''], ''years_experience'' \<mapsto> PInt 3]
   = Inr (''Ann'', ''a@b.com'', [''Go'', ''sql''], PInt 3)"
  by (simp add: validate_candidate_payload_def dict_get_def name_check_def email_check_def
      skills_check_def years_experience_check_def strip_def isspace_def)

section \<open>Properties of the rounding\<close>

text \<open>
  \<^const>\<open>float_exponent\<close> finds the binade of a positive rational, and the binade is
  unique, so \<^const>\<open>fl\<close> can be evaluated once the exponent is known.
\<close>

lemma bitlen_powi:
  assumes "0 < p"
  shows "(2::rat) powi (bitlen p - 1) \<le> of_int p" "of_int p < (2::rat) powi (bitlen p)"
proof -
  from assms have b: "1 \<le> bitlen p"
    using bitlen_eq_zero_iff[of p] bitlen_nonneg[of p] by linarith
  have "(2::int) ^ nat (bitlen p - 1) \<le> p" "p < 2 ^ nat (bitlen p)"
    using bitlen_bounds[OF assms] by auto
  then have "(of_int (2 ^ nat (bitlen p - 1))::rat) \<le> of_int p" "(of_int p ::rat) < of_int (2 ^ nat (bitlen p))"
    by (simp_all only: of_int_le_iff of_int_less_iff)
  then show "(2::rat) powi (bitlen p - 1) \<le> of_int p" "of_int p < (2::rat) powi (bitlen p)"
    using b by (simp_all add: power_int_def)
qed

lemma float_exponent_bounds:
  assumes "0 < x"
  shows "2 powi (float_exponent x) \<le> x" "x < 2 powi (float_exponent x + 1)"
proof -
  obtain p q where pq: "quotient_of x = (p, q)" by (cases "quotient_of x")
  have q: "0 < q" using pq by (rule quotient_of_denom_pos)
  have x: "x = of_int p / of_int q" using pq by (rule quotient_of_div)
  have p: "0 < p" using assms q x by (simp add: zero_less_divide_iff)
  let ?e = "bitlen p - bitlen q"
  have up: "x < 2 powi (?e + 1)"
  proof -
    have "of_int p < (2::rat) powi (bitlen p)" using bitlen_powi[OF p] by simp
    moreover have "(2::rat) powi (bitlen q - 1) \<le> of_int q" using bitlen_powi[OF q] by simp
    moreover have "(2::rat) powi (bitlen p) = 2 powi (?e + 1) * 2 powi (bitlen q - 1)"
      by (simp add: power_int_add[symmetric])
    moreover have "(2::rat) powi (?e + 1) * 2 powi (bitlen q - 1) \<le> 2 powi (?e + 1) * of_int q"
      using bitlen_powi(1)[OF q] by (intro mult_left_mono) simp_all
    ultimately have "(of_int p :: rat) < 2 powi (?e + 1) * of_int q"
      by linarith
    then show ?thesis using q by (simp add: x pos_divide_less_eq)
  qed
  have lo: "2 powi (?e - 1) \<le> x"
  proof -
    have "(2::rat) powi (bitlen p - 1) \<le> of_int p" using bitlen_powi[OF p] by simp
    moreover have "of_int q < (2::rat) powi (bitlen q)" using bitlen_powi[OF q] by simp
    moreover have "(2::rat) powi (bitlen p - 1) = 2 powi (?e - 1) * 2 powi (bitlen q)"
      by (simp add: power_int_add[symmetric])
    moreover have "(2::rat) powi (?e - 1) * of_int q \<le> 2 powi (?e - 1) * 2 powi (bitlen q)"
      using bitlen_powi(2)[OF q] by (intro mult_left_mono) simp_all
    ultimately have "(2::rat) powi (?e - 1) * of_int q \<le> of_int p"
      by linarith
    then show ?thesis using q by (simp add: x pos_le_divide_eq)
  qed
  show "2 powi (float_exponent x) \<le> x" using lo by (simp add: float_exponent_def pq Let_def)
  show "x < 2 powi (float_exponent x + 1)" using up by (auto simp add: float_exponent_def pq Let_def)
qed

lemma powi_two_le_less:
  assumes "(2::rat) powi a \<le> x" "x < 2 powi (b + 1)"
  shows "a \<le> b"
proof (rule ccontr)
  assume "\<not> a \<le> b"
  then have "b + 1 \<le> a" by simp
  then have "(2::rat) powi (b + 1) \<le> 2 powi a" by (intro power_int_increasing) simp_all
  with assms show False by simp
qed

lemma float_exponent_unique:
  assumes "2 powi e \<le> x" "x < 2 powi (e + 1)"
  shows "float_exponent x = e"
proof -
  have "0 < x" using less_le_trans[OF zero_less_power_int[of 2 e] assms(1)] by simp
  from float_exponent_bounds[OF this] assms
  have "e \<le> float_exponent x" "float_exponent x \<le> e"
    by (auto intro: powi_two_le_less)
  then show ?thesis by simp
qed

lemma fl_eval:
  assumes "2 powi e \<le> x" "x < 2 powi (e + 1)"
  shows "fl x = of_int (round_half_even (x / 2 powi (e - 52))) * 2 powi (e - 52)"
proof -
  have "0 < x" using less_le_trans[OF zero_less_power_int[of 2 e] assms(1)] by simp
  then show ?thesis by (simp add: fl_def float_exponent_unique[OF assms] Let_def)
qed

text \<open>Rounding a quotient of integers to the nearest integer, ties to even.\<close>

lemma round_half_even_divide:
  assumes "0 < b"
  shows "round_half_even (of_int a / of_int b) =
    (let q = a div b; r = a mod b
     in if 2 * r < b then q else if b < 2 * r then q + 1 else if even q then q else q + 1)"
proof -
  let ?r = "a mod b"
  have b: "(0::rat) < of_int b" using assms by simp
  have f: "\<lfloor>(of_int a / of_int b :: rat)\<rfloor> = a div b" by (rule floor_divide_of_int_eq)
  have "(of_int a :: rat) = of_int (a div b) * of_int b + of_int ?r"
    by (simp flip: of_int_mult of_int_add)
  then have "(of_int a / of_int b :: rat) = of_int (a div b) + of_int ?r / of_int b"
    using b by (simp add: add_divide_distrib)
  then have d: "(of_int a / of_int b :: rat) - of_int (a div b) = of_int ?r / of_int b"
    by simp
  have "(of_int ?r / of_int b < (1 / 2 :: rat)) = (of_int ?r * 2 < (of_int b :: rat))"
    using b by (simp add: pos_divide_less_eq)
  also have "\<dots> = (of_int (?r * 2) < (of_int b :: rat))" by simp
  also have "\<dots> = (2 * ?r < b)" by (simp only: of_int_less_iff mult.commute)
  finally have c1: "(of_int ?r / of_int b < (1 / 2 :: rat)) = (2 * ?r < b)" .
  have "((1 / 2 :: rat) < of_int ?r / of_int b) = ((of_int b :: rat) < of_int ?r * 2)"
    using b by (simp add: pos_less_divide_eq)
  also have "\<dots> = ((of_int b :: rat) < of_int (?r * 2))" by simp
  also have "\<dots> = (b < 2 * ?r)" by (simp only: of_int_less_iff mult.commute)
  finally have c2: "((1 / 2 :: rat) < of_int ?r / of_int b) = (b < 2 * ?r)" .
  show ?thesis unfolding round_half_even_def Let_def f d c1 c2 ..
qed

lemma round_half_even_nonneg: "0 \<le> x \<Longrightarrow> 0 \<le> round_half_even x"
  by (auto simp add: round_half_even_def Let_def)

lemma fl_nonneg: "0 \<le> x \<Longrightarrow> 0 \<le> fl x"
  by (auto simp add: fl_def Let_def sgn_if intro!: mult_nonneg_nonneg round_half_even_nonneg divide_nonneg_nonneg)


text \<open>
  The rounding error: a positive \<open>x\<close> moves by at most \<open>x / 2 ^ 53\<close>, so two
  roundings in a row move a product by a factor between \<open>1 - 2 / 2 ^ 53\<close> and
  \<open>1 + 3 / 2 ^ 53\<close>.
\<close>

lemma round_half_even_error: "\<bar>of_int (round_half_even y) - y\<bar> \<le> 1 / 2"
proof -
  have "of_int \<lfloor>y\<rfloor> \<le> y" "y < of_int \<lfloor>y\<rfloor> + 1" by linarith+
  then show ?thesis by (auto simp add: round_half_even_def Let_def)
qed

lemma fl_error:
  assumes "0 < x"
  shows "\<bar>fl x - x\<bar> \<le> x / 2 ^ 53"
proof -
  let ?u = "(2::rat) powi (float_exponent x - 52)"
  have u: "0 < ?u" by (simp add: zero_less_power_int)
  have f: "fl x = of_int (round_half_even (x / ?u)) * ?u"
    using assms by (simp add: fl_def Let_def)
  have "fl x - x = (of_int (round_half_even (x / ?u)) - x / ?u) * ?u"
    using u by (simp add: f left_diff_distrib)
  then have "\<bar>fl x - x\<bar> = \<bar>of_int (round_half_even (x / ?u)) - x / ?u\<bar> * ?u"
    using u by (simp add: abs_mult)
  also have "\<dots> \<le> 1 / 2 * ?u"
    using u round_half_even_error[of "x / ?u"] by (intro mult_right_mono) simp_all
  also have "?u = 2 powi (float_exponent x) / 2 ^ 52"
    by (simp add: power_int_diff)
  also have "1 / 2 * (2 powi (float_exponent x) / 2 ^ 52) \<le> 1 / 2 * (x / 2 ^ 52)"
    using float_exponent_bounds(1)[OF assms] by (intro mult_left_mono divide_right_mono) simp_all
  finally show ?thesis by simp
qed

lemma fl_pos: "0 < x \<Longrightarrow> 0 < fl x"
proof -
  assume x: "0 < x"
  have "x / 2 ^ 53 < x" using x by (simp add: field_simps)
  with fl_error[OF x] show ?thesis by linarith
qed


lemma quotient_floor_bounds:
  assumes "0 < n"
  shows "of_int (a div n) \<le> (of_int a / of_int n :: rat)"
    and "(of_int a / of_int n :: rat) \<le> of_int (a div n) + 1 - 1 / of_int n"
proof -
  have n: "(0::rat) < of_int n" using assms by simp
  have a: "a = (a div n) * n + a mod n" by simp
  have m0: "0 \<le> a mod n" and m1: "a mod n \<le> n - 1" using assms by simp_all
  have "(of_int a :: rat) = of_int (a div n) * of_int n + of_int (a mod n)"
    by (simp flip: of_int_mult of_int_add)
  then have q: "(of_int a / of_int n :: rat) = of_int (a div n) + of_int (a mod n) / of_int n"
    using n by (simp add: add_divide_distrib)
  have "(0::rat) \<le> of_int (a mod n) / of_int n" using m0 n by simp
  with q show "of_int (a div n) \<le> (of_int a / of_int n :: rat)" by simp
  have "(of_int (a mod n) :: rat) \<le> of_int n - 1" using m1 by (simp flip: of_int_diff add: of_int_le_iff del: of_int_diff)
  then have "(of_int (a mod n) / of_int n :: rat) \<le> (of_int n - 1) / of_int n"
    using n by (simp add: divide_right_mono)
  also have "\<dots> = 1 - 1 / of_int n" using n by (simp add: diff_divide_distrib)
  finally show "(of_int a / of_int n :: rat) \<le> of_int (a div n) + 1 - 1 / of_int n"
    using q by simp
qed

lemma two_roundings:
  fixes q k :: rat
  assumes q: "0 < q" and k: "0 < k"
  defines "E \<equiv> 1 / 2 ^ 53"
  shows "fl (fl q * k) \<le> q * k + q * k * (3 * E)" and "q * k - q * k * (2 * E) \<le> fl (fl q * k)"
    and "0 < fl (fl q * k)"
proof -
  have E: "0 < E" "E \<le> 1" by (simp_all add: E_def)
  let ?r = "fl q"
  have r0: "0 < ?r" using q by (rule fl_pos)
  have "\<bar>?r - q\<bar> \<le> q * E" using fl_error[OF q] by (simp add: E_def)
  then have r: "?r \<le> q * (1 + E)" "q * (1 - E) \<le> ?r" by (simp_all add: algebra_simps abs_le_iff)
  have rk: "0 < ?r * k" using r0 k by simp
  show "0 < fl (?r * k)" using rk by (rule fl_pos)
  have "\<bar>fl (?r * k) - ?r * k\<bar> \<le> ?r * k * E" using fl_error[OF rk] by (simp add: E_def)
  then have p: "fl (?r * k) \<le> ?r * (k * (1 + E))" "?r * (k * (1 - E)) \<le> fl (?r * k)"
    by (simp_all add: algebra_simps abs_le_iff)
  have "?r * (k * (1 + E)) \<le> q * (1 + E) * (k * (1 + E))"
    using r(1) k E by (intro mult_right_mono) simp_all
  also have "\<dots> = q * k + q * k * (2 * E + E * E)" by (simp add: algebra_simps)
  also have "\<dots> \<le> q * k + q * k * (3 * E)"
  proof -
    have "E * E \<le> 1 * E" using E by (intro mult_right_mono) simp_all
    then have "2 * E + E * E \<le> 3 * E" by simp
    then have "q * k * (2 * E + E * E) \<le> q * k * (3 * E)"
      using q k by (intro mult_left_mono) simp_all
    then show ?thesis by simp
  qed
  finally show "fl (?r * k) \<le> q * k + q * k * (3 * E)" using p(1) by simp
  have "q * k - q * k * (2 * E) \<le> q * k - q * k * (2 * E) + q * k * (E * E)"
    using q k E by simp
  also have "\<dots> = q * (1 - E) * (k * (1 - E))" by (simp add: algebra_simps)
  also have "\<dots> \<le> ?r * (k * (1 - E))"
    using r(2) k E by (intro mult_right_mono) simp_all
  finally show "q * k - q * k * (2 * E) \<le> fl (?r * k)" using p(2) by simp
qed

text \<open>Evaluation of the rounding on numerals.\<close>

lemma round_half_even_numeral_divide:
  "round_half_even (numeral a / numeral b) =
    (let q = (numeral a :: int) div numeral b; r = (numeral a :: int) mod numeral b
     in if 2 * r < numeral b then q else if numeral b < 2 * r then q + 1
        else if even q then q else q + 1)"
  using round_half_even_divide[of "numeral b" "numeral a"] by (simp only: of_int_numeral zero_less_numeral)

lemma round_half_even_of_int: "round_half_even (of_int n) = n"
  by (simp add: round_half_even_def)

lemma round_half_even_numeral: "round_half_even (numeral a) = numeral a"
  using round_half_even_of_int[of "numeral a"] by simp

lemma floor_rat_numeral_divide:
  "\<lfloor>(numeral a / numeral b :: rat)\<rfloor> = numeral a div numeral b"
  using floor_divide_of_int_eq[of "numeral a" "numeral b", where ?'a = rat] by simp

lemma py_int_numeral_divide: "py_int (numeral a / numeral b) = numeral a div numeral b"
  using floor_divide_of_int_eq[of "numeral a" "numeral b", where ?'a = rat]
  by (simp add: py_int_def)

text \<open>The float operations of the scorer at the inputs of the examples below.\<close>

lemma float_of_int_100: "float_of_int 100 = 100"
  unfolding float_of_int_def
  by (subst fl_eval[of 6]) (simp_all add: round_half_even_numeral)

lemma float_literal_12_10: "float_literal (6 / 5) = 5404319552844595 / 4503599627370496"
  unfolding float_literal_def
  by (subst fl_eval[of 0]) (simp_all add: round_half_even_numeral_divide)

lemma true_div_1_3: "true_div 1 3 = Inr (6004799503160661 / 18014398509481984)"
  unfolding true_div_def
  by (subst fl_eval[of "-2"]) (simp_all add: round_half_even_numeral_divide)

lemma float_mul_1_3_100:
  "float_mul (6004799503160661 / 18014398509481984) 100 = 2345624805922133 / 70368744177664"
  unfolding float_mul_def
  by (subst fl_eval[of 5]) (simp_all add: round_half_even_numeral_divide)

lemma plain_score_1_3: "plain_score 1 3 = Inr 33"
  by (simp add: plain_score_def true_div_1_3 float_of_int_100 float_mul_1_3_100
      py_int_numeral_divide)

lemma true_div_1_4: "true_div 1 4 = Inr (1 / 4)"
  unfolding true_div_def
  by (subst fl_eval[of "-2"]) (simp_all add: round_half_even_numeral)

lemma float_mul_1_4_100: "float_mul (1 / 4) 100 = 25"
  unfolding float_mul_def
  by (subst fl_eval[of 4]) (simp_all add: round_half_even_numeral)

lemma plain_score_1_4: "plain_score 1 4 = Inr 25"
  by (simp add: plain_score_def true_div_1_4 float_of_int_100 float_mul_1_4_100 py_int_def)

lemma true_div_29_50: "true_div 29 50 = Inr (5224175567749775 / 9007199254740992)"
  unfolding true_div_def
  by (subst fl_eval[of "-1"]) (simp_all add: round_half_even_numeral_divide)

lemma float_mul_29_50_100:
  "float_mul (5224175567749775 / 9007199254740992) 100 = 8162774324609023 / 140737488355328"
  unfolding float_mul_def
  by (subst fl_eval[of 5]) (simp_all add: round_half_even_numeral_divide)

lemma plain_score_29_50: "plain_score 29 50 = Inr 57"
  by (simp add: plain_score_def true_div_29_50 float_of_int_100 float_mul_29_50_100
      py_int_numeral_divide)

lemma true_div_3_7: "true_div 3 7 = Inr (7720456504063707 / 18014398509481984)"
  unfolding true_div_def
  by (subst fl_eval[of "-2"]) (simp_all add: round_half_even_numeral_divide)

lemma float_mul_3_7_100:
  "float_mul (7720456504063707 / 18014398509481984) 100 = 6031606643799771 / 140737488355328"
  unfolding float_mul_def
  by (subst fl_eval[of 5]) (simp_all add: round_half_even_numeral_divide)

lemma float_mul_3_7_120:
  "float_mul (6031606643799771 / 140737488355328) (5404319552844595 / 4503599627370496) =
   7237927972559725 / 140737488355328"
  unfolding float_mul_def
  by (subst fl_eval[of 5]) (simp_all add: round_half_even_numeral_divide)

lemma premium_score_3_7: "premium_score 3 7 = Inr 51"
  by (simp add: premium_score_def true_div_3_7 float_of_int_100 float_literal_12_10
      float_mul_3_7_100 float_mul_3_7_120 py_int_numeral_divide)


text \<open>
  The two score formulas against exact arithmetic: for up to \<open>10 ^ 12\<close> matched skills
  the truncated float product is the exact quotient rounded down, or one less.
\<close>

lemma plain_score_float: "n \<noteq> 0 \<Longrightarrow> plain_score m n = Inr (py_int (fl (fl (of_int m / of_int n) * 100)))"
  by (simp add: plain_score_def true_div_def float_mul_def float_of_int_100)

lemma premium_score_float:
  "n \<noteq> 0 \<Longrightarrow> premium_score m n =
     Inr (py_int (fl (fl (fl (of_int m / of_int n) * 100) * fl (12 / 10))))"
  by (simp add: premium_score_def true_div_def float_mul_def float_of_int_100 float_literal_def)

lemma plain_score_bounds:
  assumes m: "0 < m" "m \<le> 10 ^ 12" and n: "0 < n"
  shows "\<exists>s. plain_score m n = Inr s \<and> (100 * m) div n - 1 \<le> s \<and> s \<le> (100 * m) div n"
proof -
  define q :: rat where "q = of_int m / of_int n"
  define E :: rat where "E = 1 / 2 ^ 53"
  let ?p = "fl (fl q * 100)"
  let ?K = "(100 * m) div n"
  have n': "(1::rat) \<le> of_int n" "(0::rat) < of_int n" using n by simp_all
  have "(of_int m :: rat) \<le> of_int (10 ^ 12)" using m(2) by (simp only: of_int_le_iff)
  then have m': "(0::rat) < of_int m" "(of_int m :: rat) \<le> 10 ^ 12"
    using m(1) by simp_all
  have q: "0 < q" using m' n' by (simp add: q_def)
  have qm: "q * of_int n = of_int m" using n' by (simp add: q_def)
  have q100: "q * 100 = of_int (100 * m) / of_int n" by (simp add: q_def)
  have hi: "?p \<le> q * 100 + q * 100 * (3 * E)" and lo: "q * 100 - q * 100 * (2 * E) \<le> ?p"
    and p0: "0 < ?p"
    using two_roundings[OF q, of 100] by (simp_all add: E_def)
  have K1: "of_int ?K \<le> q * 100" and K2: "q * 100 \<le> of_int ?K + 1 - 1 / of_int n"
    using quotient_floor_bounds[OF n, of "100 * m"] by (simp_all only: q100)
  have "q * 100 * (3 * E) = of_int m * (300 * E) / of_int n"
    by (simp add: q_def)
  also have "\<dots> < 1 / of_int n"
  proof -
    have "of_int m * (300 * E) \<le> 10 ^ 12 * (300 * E)"
      using m'(2) by (intro mult_right_mono) (simp_all add: E_def)
    also have "\<dots> < 1" by (simp add: E_def)
    finally show ?thesis using n'(2) by (simp add: divide_strict_right_mono)
  qed
  finally have "?p < of_int ?K + 1" using hi K2 by linarith
  then have "?p < of_int (?K + 1)" by simp
  then have up: "\<lfloor>?p\<rfloor> \<le> ?K" by (simp only: floor_less_iff[symmetric])
  have "q \<le> of_int m"
  proof -
    have "q * 1 \<le> q * of_int n" using q n'(1) by (intro mult_left_mono) simp_all
    then show ?thesis by (simp add: qm)
  qed
  then have "q * (200 * E) \<le> 10 ^ 12 * (200 * E)"
    using m'(2) by (intro mult_right_mono) (simp_all add: E_def)
  also have "\<dots> < 1" by (simp add: E_def)
  finally have "of_int ?K - 1 < ?p" using lo K1 by (simp add: algebra_simps)
  then have "of_int (?K - 1) \<le> ?p" by simp
  then have dn: "?K - 1 \<le> \<lfloor>?p\<rfloor>" by (simp only: le_floor_iff)
  have "plain_score m n = Inr \<lfloor>?p\<rfloor>"
    using n p0 by (simp add: plain_score_float q_def py_int_def)
  with up dn show ?thesis by simp
qed


lemma fl_6_5: "fl (6 / 5) = 5404319552844595 / 4503599627370496"
  using float_literal_12_10 unfolding float_literal_def .

lemma premium_score_bounds:
  assumes m: "0 < m" "m \<le> 10 ^ 12" and n: "0 < n"
  shows "\<exists>s. premium_score m n = Inr s \<and> (120 * m) div n - 1 \<le> s \<and> s \<le> (120 * m) div n"
proof -
  define q :: rat where "q = of_int m / of_int n"
  define E :: rat where "E = 1 / 2 ^ 53"
  define c :: rat where "c = fl (12 / 10)"
  define B :: rat where "B = q * 120"
  let ?p = "fl (fl q * 100)"
  let ?t = "fl (?p * c)"
  let ?K = "(120 * m) div n"
  have E: "0 < E" "3 * E \<le> 1" by (simp_all add: E_def)
  have n': "(1::rat) \<le> of_int n" "(0::rat) < of_int n" using n by simp_all
  have "(of_int m :: rat) \<le> of_int (10 ^ 12)" using m(2) by (simp only: of_int_le_iff)
  then have m': "(0::rat) < of_int m" "(of_int m :: rat) \<le> 10 ^ 12"
    using m(1) by simp_all
  have q: "0 < q" using m' n' by (simp add: q_def)
  have qm: "q * of_int n = of_int m" using n' by (simp add: q_def)
  have B: "B = of_int (120 * m) / of_int n" by (simp add: q_def B_def)
  have B0: "0 < B" using q by (simp add: B_def)
  have c: "0 < c" "c \<le> 12 / 10" "12 / 10 * (1 - E) \<le> c"
    by (simp_all add: c_def fl_6_5 E_def)
  have hi: "?p \<le> q * 100 * (1 + 3 * E)" and lo: "q * 100 * (1 - 2 * E) \<le> ?p" and p0: "0 < ?p"
    using two_roundings[OF q, of 100] by (simp_all add: E_def algebra_simps)
  have pc: "0 < ?p * c" using p0 c(1) by simp
  have "\<bar>?t - ?p * c\<bar> \<le> ?p * c * E" using fl_error[OF pc] by (simp add: E_def)
  then have t: "?t \<le> ?p * c * (1 + E)" "?p * c * (1 - E) \<le> ?t"
    by (simp_all add: algebra_simps abs_le_iff)
  have t0: "0 < ?t" using pc by (rule fl_pos)
  have K1: "of_int ?K \<le> B" and K2: "B \<le> of_int ?K + 1 - 1 / of_int n"
    using quotient_floor_bounds[OF n, of "120 * m"] by (simp_all only: B)
  have "?p * c \<le> q * 100 * (1 + 3 * E) * (12 / 10)"
    using hi c(2) p0 c(1) q E by (intro mult_mono) simp_all
  then have "?p * c * (1 + E) \<le> q * 100 * (1 + 3 * E) * (12 / 10) * (1 + E)"
    using E by (intro mult_right_mono) simp_all
  also have "\<dots> = B + B * (4 * E + 3 * E * E)" by (simp add: B_def algebra_simps)
  also have "\<dots> \<le> B + B * (5 * E)"
  proof -
    have "3 * E * E \<le> 1 * E" using E by (intro mult_right_mono) simp_all
    then have "4 * E + 3 * E * E \<le> 5 * E" by simp
    then have "B * (4 * E + 3 * E * E) \<le> B * (5 * E)"
      using B0 by (intro mult_left_mono) simp_all
    then show ?thesis by simp
  qed
  finally have thi: "?t \<le> B + B * (5 * E)" using t(1) by simp
  have "B * (5 * E) = of_int m * (600 * E) / of_int n"
    by (simp add: q_def B_def)
  also have "\<dots> < 1 / of_int n"
  proof -
    have "of_int m * (600 * E) \<le> 10 ^ 12 * (600 * E)"
      using m'(2) by (intro mult_right_mono) (simp_all add: E_def)
    also have "\<dots> < 1" by (simp add: E_def)
    finally show ?thesis using n'(2) by (simp add: divide_strict_right_mono)
  qed
  finally have "?t < of_int ?K + 1" using thi K2 by linarith
  then have "?t < of_int (?K + 1)" by simp
  then have up: "\<lfloor>?t\<rfloor> \<le> ?K" by (simp only: floor_less_iff[symmetric])
  have "q * 100 * (1 - 2 * E) * (12 / 10 * (1 - E)) \<le> ?p * c"
    using lo c(3) q E p0 by (intro mult_mono) simp_all
  then have "q * 100 * (1 - 2 * E) * (12 / 10 * (1 - E)) * (1 - E) \<le> ?p * c * (1 - E)"
    using E by (intro mult_right_mono) simp_all
  moreover have "q * 100 * (1 - 2 * E) * (12 / 10 * (1 - E)) * (1 - E) =
      B - B * (4 * E) + B * (E * E * (5 - 2 * E))"
    by (simp add: B_def field_simps)
  moreover have "0 \<le> B * (E * E * (5 - 2 * E))" using B0 E by simp
  ultimately have tlo: "B - B * (4 * E) \<le> ?t" using t(2) by linarith
  have "q \<le> of_int m"
  proof -
    have "q * 1 \<le> q * of_int n" using q n'(1) by (intro mult_left_mono) simp_all
    then show ?thesis by (simp add: qm)
  qed
  then have "q * (480 * E) \<le> 10 ^ 12 * (480 * E)"
    using m'(2) by (intro mult_right_mono) (simp_all add: E_def)
  also have "\<dots> < 1" by (simp add: E_def)
  finally have "B * (4 * E) < 1" by (simp add: B_def)
  then have "of_int ?K - 1 < ?t" using tlo K1 by linarith
  then have "of_int (?K - 1) \<le> ?t" by simp
  then have dn: "?K - 1 \<le> \<lfloor>?t\<rfloor>" by (simp only: le_floor_iff)
  have "premium_score m n = Inr \<lfloor>?t\<rfloor>"
    using n t0 by (simp add: premium_score_float q_def c_def py_int_def)
  with up dn show ?thesis by simp
qed

section \<open>Properties of the match scorer\<close>

text \<open>The loop over the skills from the sixth on counts the members.\<close>

lemma fold_count:
  "fold (\<lambda>skill count. if skill \<in> set js then count + 1 else count) xs k =
   k + int (length (filter (\<lambda>skill. skill \<in> set js) xs))"
  by (induction xs arbitrary: k) simp_all

lemma take_5_disjoint:
  assumes "cs \<noteq> []"
  shows "(set (take 5 cs) \<inter> set js = {}) =
    (cs ! 0 \<notin> set js \<and> \<not> (1 < length cs \<and> cs ! 1 \<in> set js) \<and>
     \<not> (2 < length cs \<and> cs ! 2 \<in> set js) \<and> \<not> (3 < length cs \<and> cs ! 3 \<in> set js) \<and>
     \<not> (4 < length cs \<and> cs ! 4 \<in> set js))"
proof -
  obtain a0 r0 where c0: "cs = a0 # r0" using assms by (cases cs) auto
  show ?thesis
  proof (cases r0)
    case Nil
    with c0 show ?thesis by simp
  next
    case (Cons a1 r1)
    note c1 = this
    show ?thesis
    proof (cases r1)
      case Nil
      with c0 c1 show ?thesis by auto
    next
      case (Cons a2 r2)
      note c2 = this
      show ?thesis
      proof (cases r2)
        case Nil
        with c0 c1 c2 show ?thesis by auto
      next
        case (Cons a3 r3)
        note c3 = this
        show ?thesis
        proof (cases r3)
          case Nil
          with c0 c1 c2 c3 show ?thesis by auto
        next
          case (Cons a4 r4)
          with c0 c1 c2 c3 show ?thesis by auto
        qed
      qed
    qed
  qed
qed

lemma matched_count_first_five:
  assumes "cs \<noteq> []" "set (take 5 cs) \<inter> set js \<noteq> {}"
  shows "matched_count cs js = Inr 1"
  using assms(2) unfolding take_5_disjoint[OF assms(1)] matched_count_def
  using assms(1) by auto

lemma matched_count_rest:
  assumes "cs \<noteq> []" "set (take 5 cs) \<inter> set js = {}"
  shows "matched_count cs js = Inr (membership_count (drop 5 cs) js)"
  using assms(2) unfolding take_5_disjoint[OF assms(1)] matched_count_def
  using assms(1) by (auto simp add: fold_count membership_count_def)

lemma matched_count_nonneg: "matched_count cs js = Inr m \<Longrightarrow> 0 \<le> m"
  by (auto simp add: matched_count_def fold_count split: if_splits)

text \<open>
  C10: when one of the first five lowercased candidate skills is in the lowercased list of
  required skills, \<^verbatim>\<open>matched_count\<close> is exactly 1, and it stays 1 whatever follows the
  fifth skill, which is therefore not looked at; when none of the first five is in the
  list, \<^verbatim>\<open>matched_count\<close> is the number of the skills from the sixth on that are in the
  list.
\<close>

theorem matched_count_positional:
  "cs \<noteq> [] \<Longrightarrow>
   (set (take 5 cs) \<inter> set js \<noteq> {} \<longrightarrow>
      matched_count cs js = Inr 1 \<and>
      (\<forall>cs'. take 5 cs' = take 5 cs \<longrightarrow> matched_count cs' js = Inr 1)) \<and>
   (set (take 5 cs) \<inter> set js = {} \<longrightarrow>
      matched_count cs js = Inr (membership_count (drop 5 cs) js))"
proof (intro conjI impI allI)
  assume a: "cs \<noteq> []" "set (take 5 cs) \<inter> set js \<noteq> {}"
  then show "matched_count cs js = Inr 1" by (rule matched_count_first_five)
  fix cs' assume t: "take 5 cs' = take 5 cs"
  have "take 5 cs \<noteq> []" using a(1) by simp
  with t have "cs' \<noteq> []" by auto
  moreover have "set (take 5 cs') \<inter> set js \<noteq> {}" using a(2) t by simp
  ultimately show "matched_count cs' js = Inr 1" by (rule matched_count_first_five)
next
  assume "cs \<noteq> []" "set (take 5 cs) \<inter> set js = {}"
  then show "matched_count cs js = Inr (membership_count (drop 5 cs) js)"
    by (rule matched_count_rest)
qed

text \<open>
  C5: when the candidate has no skills or the job requires none, the scorer returns 0,
  whatever the other fields hold, the years of experience and the metadata included.
\<close>

theorem empty_skills_score_zero:
  "skills c = [] \<or> skills_required j = [] \<Longrightarrow> calculate_match_score c j = Inr 0"
  by (simp add: calculate_match_score_def)

text \<open>No float of the scorer is negative.\<close>

lemma py_int_nonneg: "0 \<le> x \<Longrightarrow> 0 \<le> py_int x"
  by (simp add: py_int_def)

lemma true_div_nonneg: "0 \<le> a \<Longrightarrow> 0 \<le> b \<Longrightarrow> true_div a b = Inr r \<Longrightarrow> 0 \<le> r"
  by (auto simp add: true_div_def split: if_splits intro!: fl_nonneg)

lemma float_mul_nonneg: "0 \<le> x \<Longrightarrow> 0 \<le> y \<Longrightarrow> 0 \<le> float_mul x y"
  by (simp add: float_mul_def fl_nonneg)

lemma float_of_int_nonneg: "0 \<le> n \<Longrightarrow> 0 \<le> float_of_int n"
  by (simp add: float_of_int_def fl_nonneg)

lemma float_literal_nonneg: "0 \<le> r \<Longrightarrow> 0 \<le> float_literal r"
  by (simp add: float_literal_def fl_nonneg)

lemma plain_score_nonneg:
  "0 \<le> a \<Longrightarrow> 0 \<le> b \<Longrightarrow> plain_score a b = Inr s \<Longrightarrow> 0 \<le> s"
  by (auto simp add: plain_score_def split: sum.splits
      intro!: py_int_nonneg float_mul_nonneg float_of_int_nonneg dest: true_div_nonneg)

lemma premium_score_nonneg:
  "0 \<le> a \<Longrightarrow> 0 \<le> b \<Longrightarrow> premium_score a b = Inr s \<Longrightarrow> 0 \<le> s"
  by (auto simp add: premium_score_def split: sum.splits
      intro!: py_int_nonneg float_mul_nonneg float_of_int_nonneg float_literal_nonneg
      dest: true_div_nonneg)

text \<open>
  C6: whenever the scorer returns a value, the value is an integer from 0 to 100.
\<close>

theorem score_range:
  assumes "calculate_match_score c j = Inr r"
  shows "0 \<le> r \<and> r \<le> 100"
proof (cases "skills c = [] \<or> skills_required j = []")
  case True
  with assms show ?thesis by (simp add: calculate_match_score_def)
next
  case False
  let ?cs = "map lower (skills c)" and ?js = "map lower (skills_required j)"
  from assms False obtain b where b: "read_base_multiplier (metadata c) = Inr b"
    by (auto simp add: calculate_match_score_def split: sum.splits)
  from assms False b obtain m where m: "matched_count ?cs ?js = Inr m"
    by (auto simp add: calculate_match_score_def Let_def split: sum.splits)
  have m0: "0 \<le> m" using m by (rule matched_count_nonneg)
  show ?thesis
  proof (cases "m = 0")
    case True
    with assms False b m show ?thesis by (simp add: calculate_match_score_def)
  next
    case nz: False
    let ?p = "if 10 < years_experience c \<and> 3 \<le> m
              then premium_score m (int (length ?js)) else plain_score m (int (length ?js))"
    from assms False b m nz obtain s where s: "?p = Inr s" and r: "r = min s 100"
      by (auto simp add: calculate_match_score_def Let_def split: sum.splits if_splits)
    have n0: "0 \<le> int (length ?js)" by simp
    have "0 \<le> s"
    proof (cases "10 < years_experience c \<and> 3 \<le> m")
      case True
      with s have "premium_score m (int (length ?js)) = Inr s" by simp
      with m0 n0 show ?thesis by (rule premium_score_nonneg)
    next
      case False
      with s have "plain_score m (int (length ?js)) = Inr s" by simp
      with m0 n0 show ?thesis by (rule plain_score_nonneg)
    qed
    with r show ?thesis by simp
  qed
qed


text \<open>
  C7: with skills on both sides and a non-empty metadata mapping, a mapping without the
  key \<^verbatim>\<open>skill_weights\<close>, or whose \<^verbatim>\<open>skill_weights\<close> mapping has no key \<^verbatim>\<open>base\<close>,
  makes the scorer raise \<^verbatim>\<open>KeyError\<close>; when both keys are there, the value read into
  \<^verbatim>\<open>base_multiplier\<close> has no effect: the score is that of the same candidate without
  metadata.
\<close>

theorem metadata_lookup_unguarded:
  "skills c \<noteq> [] \<Longrightarrow> skills_required j \<noteq> [] \<Longrightarrow> metadata c = Some (PDict d) \<Longrightarrow> d \<noteq> [] \<Longrightarrow>
   (map_of d ''skill_weights'' = None \<longrightarrow>
      calculate_match_score c j = Inl (KeyError ''skill_weights'')) \<and>
   (\<forall>w. map_of d ''skill_weights'' = Some (PDict w) \<longrightarrow> map_of w ''base'' = None \<longrightarrow>
      calculate_match_score c j = Inl (KeyError ''base'')) \<and>
   (\<forall>w b. map_of d ''skill_weights'' = Some (PDict w) \<longrightarrow> map_of w ''base'' = Some b \<longrightarrow>
      calculate_match_score c j = calculate_match_score (c\<lparr>metadata := None\<rparr>) j)"
  by (auto simp add: calculate_match_score_def read_base_multiplier_def Let_def
      split: sum.splits)

text \<open>
  C3, amended: when the metadata read succeeds and \<^verbatim>\<open>matched_count\<close> is \<open>m\<close>, not 0,
  with \<open>n\<close> required skills, the scorer returns the minimum of 100 and the truncated
  float product: \<open>m / n\<close> rounded to a float, times 100, rounded; and for more than 10
  years of experience with \<open>3 \<le> m\<close> that rounded product, not its integer part, times
  the float 1.2, rounded again. For \<open>m\<close> up to \<open>10 ^ 12\<close> the truncated product is
  \<open>100 * m div n\<close> or one less, and with the bonus \<open>120 * m div n\<close> or one less.
\<close>

theorem score_formula:
  assumes "read_base_multiplier (metadata c) = Inr b"
    and "matched_count (map lower (skills c)) (map lower (skills_required j)) = Inr m"
    and "m \<noteq> 0"
  shows "calculate_match_score c j =
     Inr (min (py_int
        (if 10 < years_experience c \<and> 3 \<le> m
         then fl (fl (fl (of_int m / of_int (int (length (skills_required j)))) * 100) * fl (12 / 10))
         else fl (fl (of_int m / of_int (int (length (skills_required j)))) * 100))) 100) \<and>
   (m \<le> 10 ^ 12 \<longrightarrow>
     (\<exists>s. calculate_match_score c j = Inr (min s 100) \<and>
        (if 10 < years_experience c \<and> 3 \<le> m
         then (120 * m) div int (length (skills_required j)) - 1 \<le> s \<and>
              s \<le> (120 * m) div int (length (skills_required j))
         else (100 * m) div int (length (skills_required j)) - 1 \<le> s \<and>
              s \<le> (100 * m) div int (length (skills_required j)))))"
proof (intro conjI impI)
  have c: "skills c \<noteq> []" using assms(2) by (auto simp add: matched_count_def)
  have j: "skills_required j \<noteq> []"
  proof
    assume "skills_required j = []"
    then have "matched_count (map lower (skills c)) (map lower (skills_required j)) =
        Inr (membership_count (drop 5 (map lower (skills c))) [])"
      using c by (simp add: matched_count_rest)
    with assms(2) have "m = 0" by (simp add: membership_count_def)
    with assms(3) show False by simp
  qed
  let ?n = "int (length (skills_required j))"
  have n: "?n \<noteq> 0" "0 < ?n" using j by simp_all
  have r: "calculate_match_score c j =
     (case (if 10 < years_experience c \<and> 3 \<le> m then premium_score m ?n else plain_score m ?n)
      of Inl e \<Rightarrow> Inl e | Inr score \<Rightarrow> Inr (min score 100))"
    using assms c j by (simp add: calculate_match_score_def Let_def)
  show "calculate_match_score c j =
     Inr (min (py_int
        (if 10 < years_experience c \<and> 3 \<le> m
         then fl (fl (fl (of_int m / of_int ?n) * 100) * fl (12 / 10))
         else fl (fl (of_int m / of_int ?n) * 100))) 100)"
    unfolding r using n(1) by (simp add: premium_score_float plain_score_float)
  assume le: "m \<le> 10 ^ 12"
  have m0: "0 < m" using matched_count_nonneg[OF assms(2)] assms(3) by simp
  show "\<exists>s. calculate_match_score c j = Inr (min s 100) \<and>
        (if 10 < years_experience c \<and> 3 \<le> m
         then (120 * m) div ?n - 1 \<le> s \<and> s \<le> (120 * m) div ?n
         else (100 * m) div ?n - 1 \<le> s \<and> s \<le> (100 * m) div ?n)"
  proof (cases "10 < years_experience c \<and> 3 \<le> m")
    case True
    from premium_score_bounds[OF m0 le n(2)] obtain s
      where "premium_score m ?n = Inr s" "(120 * m) div ?n - 1 \<le> s" "s \<le> (120 * m) div ?n"
      by blast
    with True r show ?thesis by auto
  next
    case False
    from plain_score_bounds[OF m0 le n(2)] obtain s
      where "plain_score m ?n = Inr s" "(100 * m) div ?n - 1 \<le> s" "s \<le> (100 * m) div ?n"
      by blast
    with False r show ?thesis by auto
  qed
qed

text \<open>One match out of four required skills and two years of experience.\<close>

lemma example_score_25:
  "calculate_match_score
     \<lparr>name = ''Ann'', email = ''a@b.com'', skills = [''PYTHON''], years_experience = 2,
      metadata = None\<rparr>
     \<lparr>title = ''Eng'', location = ''NYC'', skills_required = [''go'', ''sql'', ''rust'', ''python'']\<rparr>
   = Inr 25"
  by (simp add: calculate_match_score_def read_base_multiplier_def lower_def lower_char_def
      matched_count_def plain_score_1_4)

text \<open>
  C1, on the code: for the candidate skills \<^verbatim>\<open>["go", "sql"]\<close> and the same required
  skills, the chain stops at the first match and \<^verbatim>\<open>matched_count\<close> is 1, while two
  candidate skills are in the list of required skills.
\<close>

theorem matched_count_stops_at_first_match:
  "matched_count (map lower [''go'', ''sql'']) (map lower [''go'', ''sql'']) = Inr 1 \<and>
   membership_count (map lower [''go'', ''sql'']) (map lower [''go'', ''sql'']) = 2"
  by (simp add: matched_count_def membership_count_def lower_def lower_char_def)

text \<open>
  C2, on the code: for the candidate with the skills \<^verbatim>\<open>["go", "sql", "rust"]\<close> and 12
  years of experience and the job requiring the same three skills, \<^verbatim>\<open>matched_count\<close>
  is 1, the premium branch is not taken and the scorer returns 33.
\<close>

theorem full_match_example_scores_33:
  "matched_count (map lower [''go'', ''sql'', ''rust'']) (map lower [''go'', ''sql'', ''rust''])
     = Inr 1 \<and>
   calculate_match_score
     \<lparr>name = ''Ann'', email = ''a@b.com'', skills = [''go'', ''sql'', ''rust''],
      years_experience = 12, metadata = None\<rparr>
     \<lparr>title = ''Eng'', location = ''NYC'', skills_required = [''go'', ''sql'', ''rust'']\<rparr>
   = Inr 33"
  by (simp add: calculate_match_score_def read_base_multiplier_def lower_def lower_char_def
      matched_count_def plain_score_1_3)

text \<open>
  C3 as stated fails on two inputs. With three of seven required skills matched and 11
  years of experience the scorer returns 51, where the rounded-down score 42 times 1.2,
  truncated, is 50. With 29 of 50 required skills matched and no bonus it returns 57,
  since the float product is just below 58, where 29 / 50 * 100 rounded down is 58.
\<close>

theorem score_formula_counterexample:
  "calculate_match_score
     \<lparr>name = ''Ann'', email = ''a@b.com'',
      skills = [''c'', ''cobol'', ''ada'', ''apl'', ''awk'', ''Go'', ''SQL'', ''Rust''],
      years_experience = 11, metadata = None\<rparr>
     \<lparr>title = ''Eng'', location = ''NYC'',
      skills_required = [''go'', ''sql'', ''rust'', ''java'', ''perl'', ''ruby'', ''lisp'']\<rparr>
   = Inr 51 \<and>
   matched_count
     (map lower [''c'', ''cobol'', ''ada'', ''apl'', ''awk'', ''Go'', ''SQL'', ''Rust''])
     (map lower [''go'', ''sql'', ''rust'', ''java'', ''perl'', ''ruby'', ''lisp'']) = Inr 3 \<and>
   spec_score 3 7 True = 50 \<and>
   calculate_match_score
     \<lparr>name = ''Bob'', email = ''b@c.org'', skills = replicate 5 ''c'' @ replicate 29 ''go'',
      years_experience = 2, metadata = None\<rparr>
     \<lparr>title = ''Eng'', location = ''NYC'', skills_required = replicate 50 ''go''\<rparr>
   = Inr 57 \<and>
   matched_count (map lower (replicate 5 ''c'' @ replicate 29 ''go''))
     (map lower (replicate 50 ''go'')) = Inr 29 \<and>
   spec_score 29 50 False = 58"
proof (intro conjI)
  show "spec_score 3 7 True = 50"
    by (simp add: spec_score_def floor_rat_numeral_divide)
  show "spec_score 29 50 False = 58"
    by (simp add: spec_score_def floor_rat_numeral_divide)
  show "matched_count
     (map lower [''c'', ''cobol'', ''ada'', ''apl'', ''awk'', ''Go'', ''SQL'', ''Rust''])
     (map lower [''go'', ''sql'', ''rust'', ''java'', ''perl'', ''ruby'', ''lisp'']) = Inr 3"
    by (simp add: matched_count_def lower_def lower_char_def)
  show "calculate_match_score
     \<lparr>name = ''Ann'', email = ''a@b.com'',
      skills = [''c'', ''cobol'', ''ada'', ''apl'', ''awk'', ''Go'', ''SQL'', ''Rust''],
      years_experience = 11, metadata = None\<rparr>
     \<lparr>title = ''Eng'', location = ''NYC'',
      skills_required = [''go'', ''sql'', ''rust'', ''java'', ''perl'', ''ruby'', ''lisp'']\<rparr>
   = Inr 51"
    by (simp add: calculate_match_score_def read_base_multiplier_def Let_def lower_def
        lower_char_def matched_count_def premium_score_3_7)
  show "matched_count (map lower (replicate 5 ''c'' @ replicate 29 ''go''))
     (map lower (replicate 50 ''go'')) = Inr 29"
    by (subst matched_count_rest) (simp_all add: lower_def lower_char_def membership_count_def)
  show "calculate_match_score
     \<lparr>name = ''Bob'', email = ''b@c.org'', skills = replicate 5 ''c'' @ replicate 29 ''go'',
      years_experience = 2, metadata = None\<rparr>
     \<lparr>title = ''Eng'', location = ''NYC'', skills_required = replicate 50 ''go''\<rparr>
   = Inr 57"
    by (simp add: calculate_match_score_def read_base_multiplier_def Let_def)
      (subst matched_count_rest, simp_all add: lower_def lower_char_def membership_count_def
        plain_score_29_50)
qed

lemma fl_1_4: "fl (1 / 4) = 1 / 4"
  by (subst fl_eval[of "-2"]) (simp_all add: round_half_even_numeral)

lemma fl_25: "fl 25 = 25"
  by (subst fl_eval[of 4]) (simp_all add: round_half_even_numeral)

text \<open>C3, amended, at one match out of four required skills: the score is 25.\<close>

theorem score_formula_witness:
  "read_base_multiplier
     (metadata \<lparr>name = ''Ann'', email = ''a@b.com'', skills = [''PYTHON''],
                years_experience = 2, metadata = None\<rparr>) = Inr None \<and>
   matched_count (map lower [''PYTHON'']) (map lower [''go'', ''sql'', ''rust'', ''python''])
     = Inr 1 \<and>
   (1::int) \<noteq> 0 \<and> (1::int) \<le> 10 ^ 12 \<and>
   calculate_match_score
     \<lparr>name = ''Ann'', email = ''a@b.com'', skills = [''PYTHON''], years_experience = 2,
      metadata = None\<rparr>
     \<lparr>title = ''Eng'', location = ''NYC'', skills_required = [''go'', ''sql'', ''rust'', ''python'']\<rparr>
   = Inr 25 \<and>
   (\<exists>s. calculate_match_score
     \<lparr>name = ''Ann'', email = ''a@b.com'', skills = [''PYTHON''], years_experience = 2,
      metadata = None\<rparr>
     \<lparr>title = ''Eng'', location = ''NYC'', skills_required = [''go'', ''sql'', ''rust'', ''python'']\<rparr>
   = Inr (min s 100) \<and> 24 \<le> s \<and> s \<le> 25)"
proof -
  let ?c = "\<lparr>name = ''Ann'', email = ''a@b.com'', skills = [''PYTHON''], years_experience = 2,
      metadata = None\<rparr>"
  let ?j = "\<lparr>title = ''Eng'', location = ''NYC'',
      skills_required = [''go'', ''sql'', ''rust'', ''python'']\<rparr>"
  have b: "read_base_multiplier (metadata ?c) = Inr None"
    by (simp add: read_base_multiplier_def)
  have m: "matched_count (map lower (skills ?c)) (map lower (skills_required ?j)) = Inr 1"
    by (simp add: matched_count_def lower_def lower_char_def)
  have z: "(1::int) \<noteq> 0" and l: "(1::int) \<le> 10 ^ 12" by simp_all
  have v: "calculate_match_score ?c ?j = Inr 25"
    using score_formula[OF b m z, THEN conjunct1] by (simp add: fl_1_4 fl_25 py_int_def)
  have "\<exists>s. calculate_match_score ?c ?j = Inr (min s 100) \<and> 24 \<le> s \<and> s \<le> 25"
    using score_formula[OF b m z, THEN conjunct2, rule_format, OF l] by simp
  with b m v show ?thesis by simp
qed

text \<open>C5 at a candidate without skills, with 12 years and a metadata mapping without weights.\<close>

theorem empty_skills_score_zero_witness:
  "(skills \<lparr>name = ''Ann'', email = ''a@b.com'', skills = [], years_experience = 12,
            metadata = Some (PDict [(''team'', PStr ''core'')])\<rparr> = [] \<or>
    skills_required \<lparr>title = ''Eng'', location = ''NYC'', skills_required = [''go'']\<rparr> = []) \<and>
   calculate_match_score
     \<lparr>name = ''Ann'', email = ''a@b.com'', skills = [], years_experience = 12,
      metadata = Some (PDict [(''team'', PStr ''core'')])\<rparr>
     \<lparr>title = ''Eng'', location = ''NYC'', skills_required = [''go'']\<rparr> = Inr 0"
proof -
  let ?c = "\<lparr>name = ''Ann'', email = ''a@b.com'', skills = [], years_experience = 12,
      metadata = Some (PDict [(''team'', PStr ''core'')])\<rparr>"
  let ?j = "\<lparr>title = ''Eng'', location = ''NYC'', skills_required = [''go'']\<rparr>"
  have h: "skills ?c = [] \<or> skills_required ?j = []" by simp
  from empty_skills_score_zero[OF h] h show ?thesis by simp
qed

text \<open>C6 at the score 25.\<close>

theorem score_range_witness:
  "calculate_match_score
     \<lparr>name = ''Ann'', email = ''a@b.com'', skills = [''PYTHON''], years_experience = 2,
      metadata = None\<rparr>
     \<lparr>title = ''Eng'', location = ''NYC'', skills_required = [''go'', ''sql'', ''rust'', ''python'']\<rparr>
   = Inr 25 \<and> (0::int) \<le> 25 \<and> (25::int) \<le> 100"
  using score_range[OF example_score_25] example_score_25 by simp

text \<open>
  C7 at three metadata mappings: without \<^verbatim>\<open>skill_weights\<close>, with \<^verbatim>\<open>skill_weights\<close> but
  without \<^verbatim>\<open>base\<close>, and with both.
\<close>

theorem metadata_lookup_unguarded_witness:
  "calculate_match_score
     \<lparr>name = ''Ann'', email = ''a@b.com'', skills = [''PYTHON''], years_experience = 2,
      metadata = Some (PDict [(''team'', PStr ''core'')])\<rparr>
     \<lparr>title = ''Eng'', location = ''NYC'', skills_required = [''go'', ''sql'', ''rust'', ''python'']\<rparr>
   = Inl (KeyError ''skill_weights'') \<and>
   calculate_match_score
     \<lparr>name = ''Ann'', email = ''a@b.com'', skills = [''PYTHON''], years_experience = 2,
      metadata = Some (PDict [(''skill_weights'', PDict [(''scale'', PInt 1)])])\<rparr>
     \<lparr>title = ''Eng'', location = ''NYC'', skills_required = [''go'', ''sql'', ''rust'', ''python'']\<rparr>
   = Inl (KeyError ''base'') \<and>
   calculate_match_score
     \<lparr>name = ''Ann'', email = ''a@b.com'', skills = [''PYTHON''], years_experience = 2,
      metadata = Some (PDict [(''skill_weights'', PDict [(''base'', PInt 2)])])\<rparr>
     \<lparr>title = ''Eng'', location = ''NYC'', skills_required = [''go'', ''sql'', ''rust'', ''python'']\<rparr>
   = Inr 25"
proof (intro conjI)
  let ?j = "\<lparr>title = ''Eng'', location = ''NYC'',
      skills_required = [''go'', ''sql'', ''rust'', ''python'']\<rparr>"
  let ?c1 = "\<lparr>name = ''Ann'', email = ''a@b.com'', skills = [''PYTHON''], years_experience = 2,
      metadata = Some (PDict [(''team'', PStr ''core'')])\<rparr>"
  let ?c2 = "\<lparr>name = ''Ann'', email = ''a@b.com'', skills = [''PYTHON''], years_experience = 2,
      metadata = Some (PDict [(''skill_weights'', PDict [(''scale'', PInt 1)])])\<rparr>"
  let ?c3 = "\<lparr>name = ''Ann'', email = ''a@b.com'', skills = [''PYTHON''], years_experience = 2,
      metadata = Some (PDict [(''skill_weights'', PDict [(''base'', PInt 2)])])\<rparr>"
  have j: "skills_required ?j \<noteq> []" by simp
  have c1: "skills ?c1 \<noteq> []" "metadata ?c1 = Some (PDict [(''team'', PStr ''core'')])"
    "[(''team'', PStr ''core'')] \<noteq> []" by simp_all
  have k1: "map_of [(''team'', PStr ''core'')] ''skill_weights'' = None" by simp
  from metadata_lookup_unguarded[OF c1(1) j c1(2,3), THEN conjunct1, rule_format, OF k1]
  show "calculate_match_score ?c1 ?j = Inl (KeyError ''skill_weights'')" .
  have c2: "skills ?c2 \<noteq> []"
    "metadata ?c2 = Some (PDict [(''skill_weights'', PDict [(''scale'', PInt 1)])])"
    "[(''skill_weights'', PDict [(''scale'', PInt 1)])] \<noteq> []" by simp_all
  have k2: "map_of [(''skill_weights'', PDict [(''scale'', PInt 1)])] ''skill_weights'' =
      Some (PDict [(''scale'', PInt 1)])"
    "map_of [(''scale'', PInt 1)] ''base'' = None" by simp_all
  from metadata_lookup_unguarded[OF c2(1) j c2(2,3), THEN conjunct2, THEN conjunct1,
      rule_format, OF k2]
  show "calculate_match_score ?c2 ?j = Inl (KeyError ''base'')" .
  have c3: "skills ?c3 \<noteq> []"
    "metadata ?c3 = Some (PDict [(''skill_weights'', PDict [(''base'', PInt 2)])])"
    "[(''skill_weights'', PDict [(''base'', PInt 2)])] \<noteq> []" by simp_all
  have k3: "map_of [(''skill_weights'', PDict [(''base'', PInt 2)])] ''skill_weights'' =
      Some (PDict [(''base'', PInt 2)])"
    "map_of [(''base'', PInt 2)] ''base'' = Some (PInt 2)" by simp_all
  from metadata_lookup_unguarded[OF c3(1) j c3(2,3), THEN conjunct2, THEN conjunct2,
      rule_format, OF k3]
  have "calculate_match_score ?c3 ?j = calculate_match_score (?c3\<lparr>metadata := None\<rparr>) ?j" .
  then show "calculate_match_score ?c3 ?j = Inr 25" by (simp add: example_score_25)
qed

text \<open>
  C10 at a candidate whose first skill matches and at one whose skills match only from the
  sixth on.
\<close>

theorem matched_count_positional_witness:
  "matched_count [''go'', ''sql''] [''go'', ''sql''] = Inr 1 \<and>
   matched_count [''c'', ''cobol'', ''ada'', ''apl'', ''awk'', ''go'', ''sql'', ''rust'']
     [''go'', ''sql'', ''rust'', ''java''] = Inr 3"
proof
  have a: "[''go'', ''sql''] \<noteq> []" "set (take 5 [''go'', ''sql'']) \<inter> set [''go'', ''sql''] \<noteq> {}"
    by simp_all
  from matched_count_positional[OF a(1), of "[''go'', ''sql'']", THEN conjunct1, rule_format,
      OF a(2), THEN conjunct1]
  show "matched_count [''go'', ''sql''] [''go'', ''sql''] = Inr 1" .
next
  let ?cs = "[''c'', ''cobol'', ''ada'', ''apl'', ''awk'', ''go'', ''sql'', ''rust'']"
  let ?js = "[''go'', ''sql'', ''rust'', ''java'']"
  have a: "?cs \<noteq> []" "set (take 5 ?cs) \<inter> set ?js = {}" by simp_all
  from matched_count_positional[OF a(1), of ?js, THEN conjunct2, rule_format, OF a(2)]
  have "matched_count ?cs ?js = Inr (membership_count (drop 5 ?cs) ?js)" .
  then show "matched_count ?cs ?js = Inr 3" by (simp add: membership_count_def)
qed

end
